theory Spec2Isabelle
  imports Main "HOL-Library.AList" "HOL-Library.Char_ord" "HOL-Library.List_Lexorder"
    "HOL-Library.Product_Lexorder"
begin

section \<open>Scheduled dispatch engine of the social-media backend\<close>

text \<open>
  A shallow embedding of \<^verbatim>\<open>src/services/publisher.js\<close>, \<^verbatim>\<open>src/services/scheduler.js\<close> and of
  the "publish now" route of the posts router.

  Conventions of the embedding.
  \<^item> An instant (a JavaScript \<^verbatim>\<open>Date\<close>) is an integer number of milliseconds since the epoch.
    The local-time methods of \<^verbatim>\<open>Date\<close> read it on the wall clock of the process, which is a fixed
    number of milliseconds ahead of UTC (\<open>localOffset\<close>); \<^verbatim>\<open>toISOString\<close> renders it in UTC.
  \<^item> The SQLite file is a record of tables, each a list of rows in table order. Every
    statement of the source is a function on that record, named after what it does and
    quoted beside its definition. The column \<^verbatim>\<open>posts.scheduled_at\<close> holds what the routes
    stored there without validation: NULL, a number, a text or a blob, compared as SQLite
    compares stored values.
  \<^item> What the code cannot decide by itself is read from an environment: the clock, the
    replies of the remote platforms and the configured application keys. The store counts
    the interactions made so far (\<open>step\<close>), and the clock and the remote replies are indexed
    by that count, so two readings need not agree.
  \<^item> An exception is a value: a function that can throw returns \<open>js_error + 'a\<close> beside
    the store it leaves behind. A thrown value is an \<^verbatim>\<open>Error\<close> object with its message, or a
    string, as the database library throws when it is given a parameter it cannot bind.
  \<^item> An object literal used as a lookup table (\<^verbatim>\<open>limits\<close>, \<^verbatim>\<open>optimalTimes\<close>,
    \<^verbatim>\<open>platformClients\<close>, \<^verbatim>\<open>results\<close>) is an association list of its own properties; a lookup
    that misses them finds the members every object inherits from \<^verbatim>\<open>Object.prototype\<close>.
\<close>

subsection \<open>Errors\<close>

text \<open>
  The values the code throws and catches: the \<^verbatim>\<open>Error\<close> objects of the language and of the
  HTTP client, and a thrown string.
\<close>

datatype js_error =
    SyntaxError string
  | TypeError string
  | RangeError string
  | RequestError string
  | Thrown string

text \<open>\<^verbatim>\<open>error.message\<close>, which is \<^verbatim>\<open>undefined\<close> on a string.\<close>

fun message :: "js_error \<Rightarrow> string option" where
  "message (SyntaxError m) = Some m"
| "message (TypeError m) = Some m"
| "message (RangeError m) = Some m"
| "message (RequestError m) = Some m"
| "message (Thrown s) = None"

subsection \<open>Property lookup on an object literal\<close>

text \<open>
  The property names of \<^verbatim>\<open>Object.prototype\<close>. Each of them is found on every object literal,
  and its value (a function, or the prototype object itself for \<^verbatim>\<open>__proto__\<close>) is truthy.
\<close>

definition objectPrototypeNames :: "string list" where
  "objectPrototypeNames =
     [''constructor'', ''__defineGetter__'', ''__defineSetter__'', ''hasOwnProperty'',
      ''__lookupGetter__'', ''__lookupSetter__'', ''isPrototypeOf'', ''propertyIsEnumerable'',
      ''toString'', ''valueOf'', ''__proto__'', ''toLocaleString'']"

datatype 'a member = Own 'a | Inherited | Missing

text \<open>\<^verbatim>\<open>obj[key]\<close>: an own property, else an inherited member, else \<^verbatim>\<open>undefined\<close>.\<close>

definition getProperty :: "(string \<times> 'a) list \<Rightarrow> string \<Rightarrow> 'a member" where
  "getProperty obj key =
     (case map_of obj key of
        Some v \<Rightarrow> Own v
      | None \<Rightarrow> if key \<in> set objectPrototypeNames then Inherited else Missing)"

subsection \<open>Content limits (publisher.js)\<close>

text \<open>The table \<^verbatim>\<open>limits\<close> of \<^verbatim>\<open>validateContent\<close> and \<^verbatim>\<open>adaptContentForPlatform\<close>.\<close>

definition limits :: "(string \<times> nat) list" where
  "limits = [(''twitter'', 280), (''facebook'', 63206), (''linkedin'', 3000), (''instagram'', 2200)]"

text \<open>
  \<^verbatim>\<open>const maxLength = limits[platform] || 1000\<close>: a missing or zero entry gives 1000, and an
  inherited member is kept, which is no number (\<open>None\<close>).
\<close>

definition maxLength :: "string \<Rightarrow> nat option" where
  "maxLength platform =
     (case getProperty limits platform of
        Own n \<Rightarrow> Some (if n = 0 then 1000 else n)
      | Missing \<Rightarrow> Some 1000
      | Inherited \<Rightarrow> None)"

text \<open>
  \<^verbatim>\<open>if (content.length <= maxLength) return content;
  return content.substring(0, maxLength - 3) + '...'\<close>; a string is the list of its code
  units. Against a value that is no number the comparison is false and \<^verbatim>\<open>substring(0, NaN)\<close>
  is the empty string.
\<close>

definition adaptContentForPlatform :: "string \<Rightarrow> string \<Rightarrow> string" where
  "adaptContentForPlatform content platform =
     (case maxLength platform of
        Some n \<Rightarrow> if length content \<le> n then content else take (n - 3) content @ ''...''
      | None \<Rightarrow> [] @ ''...'')"

text \<open>
  The limit as the specification words it: 280 for twitter, 63206 for facebook, 3000 for
  linkedin, 2200 for instagram, 1000 otherwise.
\<close>

definition spec_limit :: "string \<Rightarrow> nat" where
  "spec_limit platform =
     (if platform = ''twitter'' then 280 else if platform = ''facebook'' then 63206
      else if platform = ''linkedin'' then 3000 else if platform = ''instagram'' then 2200
      else 1000)"

subsection \<open>Instants and the calendar\<close>

type_synonym timestamp = int

definition msPerHour :: int where
  "msPerHour = 3600000"

definition msPerDay :: int where
  "msPerDay = 86400000"

definition weekdayNames :: "string list" where
  "weekdayNames =
     [''Sunday'', ''Monday'', ''Tuesday'', ''Wednesday'', ''Thursday'', ''Friday'', ''Saturday'']"

text \<open>
  The local-time methods take the offset of the process's time zone from UTC, in
  milliseconds, and read the instant \<open>t\<close> as the local wall-clock time \<open>t + offset\<close>.

  \<^verbatim>\<open>toLocaleDateString('en-US', { weekday: 'long' })\<close>: day 0 of the epoch was a Thursday.
\<close>

definition dayName :: "int \<Rightarrow> timestamp \<Rightarrow> string" where
  "dayName offset t = weekdayNames ! nat (((t + offset) div msPerDay + 4) mod 7)"

text \<open>\<^verbatim>\<open>d.setDate(d.getDate() + k)\<close>: the same local time of day, k days later.\<close>

definition addDays :: "timestamp \<Rightarrow> int \<Rightarrow> timestamp" where
  "addDays t k = t + k * msPerDay"

text \<open>\<^verbatim>\<open>d.setHours(hour, 0, 0, 0)\<close>: the given hour of the local day of d.\<close>

definition setHours :: "int \<Rightarrow> timestamp \<Rightarrow> int \<Rightarrow> timestamp" where
  "setHours offset t hour = (t + offset) - (t + offset) mod msPerDay + hour * msPerHour - offset"

text \<open>
  \<^verbatim>\<open>toISOString()\<close>: the UTC date and time as \<^verbatim>\<open>YYYY-MM-DDTHH:mm:ss.sssZ\<close>, the year with a sign
  and six digits outside 0 to 9999. The civil date is computed from the day number in the
  proleptic Gregorian calendar.
\<close>

definition digitChars :: string where
  "digitChars = ''0123456789''"

text \<open>The last decimal digit of a number, and a number padded with zeros to a fixed width.\<close>

definition digit :: "int \<Rightarrow> char" where
  "digit n = digitChars ! nat (n mod 10)"

definition pad2 :: "int \<Rightarrow> string" where
  "pad2 n = [digit (n div 10), digit n]"

definition pad3 :: "int \<Rightarrow> string" where
  "pad3 n = digit (n div 100) # pad2 n"

definition pad4 :: "int \<Rightarrow> string" where
  "pad4 n = digit (n div 1000) # pad3 n"

definition pad6 :: "int \<Rightarrow> string" where
  "pad6 n = digit (n div 100000) # digit (n div 10000) # pad4 n"

definition civilFromDays :: "int \<Rightarrow> int \<times> int \<times> int" where
  "civilFromDays days =
     (let z = days + 719468;
          era = z div 146097;
          doe = z mod 146097;
          yoe = (doe - doe div 1460 + doe div 36524 - doe div 146096) div 365;
          doy = doe - (365 * yoe + yoe div 4 - yoe div 100);
          mp = (5 * doy + 2) div 153;
          d = doy - (153 * mp + 2) div 5 + 1;
          m = (if mp < 10 then mp + 3 else mp - 9);
          y = yoe + era * 400 + (if m \<le> 2 then 1 else 0)
      in (y, m, d))"

definition yearText :: "int \<Rightarrow> string" where
  "yearText y =
     (if 0 \<le> y \<and> y \<le> 9999 then pad4 y
      else (if y < 0 then ''-'' else ''+'') @ pad6 \<bar>y\<bar>)"

definition toISOString :: "timestamp \<Rightarrow> string" where
  "toISOString t =
     (case civilFromDays (t div msPerDay) of
        (y, m, d) \<Rightarrow>
          (let ms = t mod msPerDay
           in yearText y @ ''-'' @ pad2 m @ ''-'' @ pad2 d @ ''T''
              @ pad2 (ms div 3600000) @ '':''
              @ pad2 (ms div 60000 mod 60) @ '':''
              @ pad2 (ms div 1000 mod 60) @ ''.''
              @ pad3 (ms mod 1000) @ ''Z''))"

subsection \<open>Optimal posting times (scheduler.js)\<close>

record optimal =
  bestDays :: "string list"
  bestHours :: "int list"
  timezone :: string

definition facebookTimes :: optimal where
  "facebookTimes =
     \<lparr>bestDays = [''Tuesday'', ''Wednesday'', ''Thursday''], bestHours = [9, 13, 16],
      timezone = ''UTC''\<rparr>"

definition linkedinTimes :: optimal where
  "linkedinTimes =
     \<lparr>bestDays = [''Tuesday'', ''Wednesday'', ''Thursday''], bestHours = [8, 10, 12],
      timezone = ''UTC''\<rparr>"

definition twitterTimes :: optimal where
  "twitterTimes =
     \<lparr>bestDays = [''Monday'', ''Tuesday'', ''Wednesday'', ''Thursday'', ''Friday''],
      bestHours = [8, 12, 17], timezone = ''UTC''\<rparr>"

definition instagramTimes :: optimal where
  "instagramTimes =
     \<lparr>bestDays = [''Monday'', ''Wednesday'', ''Friday''], bestHours = [11, 13, 19],
      timezone = ''UTC''\<rparr>"

definition optimalTimes :: "(string \<times> optimal) list" where
  "optimalTimes =
     [(''facebook'', facebookTimes), (''linkedin'', linkedinTimes),
      (''twitter'', twitterTimes), (''instagram'', instagramTimes)]"

text \<open>
  \<^verbatim>\<open>return optimalTimes[platform] || optimalTimes.facebook\<close>; the user is not used. An
  inherited member is truthy and is returned as it is; it is no table (\<open>None\<close>).
\<close>

definition getOptimalPostingTimes :: "int option \<Rightarrow> string \<Rightarrow> optimal option" where
  "getOptimalPostingTimes userId platform =
     (case getProperty optimalTimes platform of
        Own found \<Rightarrow> Some found
      | Missing \<Rightarrow> Some facebookTimes
      | Inherited \<Rightarrow> None)"

text \<open>The inner loop of \<^verbatim>\<open>getNextOptimalSlot\<close>: \<^verbatim>\<open>for (const hour of optimal.bestHours)\<close>.\<close>

fun scanHours :: "int \<Rightarrow> timestamp \<Rightarrow> timestamp \<Rightarrow> int list \<Rightarrow> timestamp option" where
  "scanHours offset checkDate now [] = None"
| "scanHours offset checkDate now (hour # hours) =
     (let slotTime = setHours offset checkDate hour
      in if slotTime > now then Some slotTime else scanHours offset checkDate now hours)"

text \<open>The outer loop: \<^verbatim>\<open>for (let dayOffset = 0; dayOffset < 7; dayOffset++)\<close>.\<close>

function scanDays :: "int \<Rightarrow> optimal \<Rightarrow> timestamp \<Rightarrow> nat \<Rightarrow> timestamp option" where
  "scanDays offset opt now dayOffset =
     (if dayOffset < 7 then
        (let checkDate = addDays now (int dayOffset)
         in if dayName offset checkDate \<in> set (bestDays opt) then
              (case scanHours offset checkDate now (bestHours opt) of
                 Some slotTime \<Rightarrow> Some slotTime
               | None \<Rightarrow> scanDays offset opt now (dayOffset + 1))
            else scanDays offset opt now (dayOffset + 1))
      else None)"
  by pat_completeness auto
termination
  by (relation "measure (\<lambda>(offset, opt, now, dayOffset). 7 - dayOffset)") auto

declare scanDays.simps [simp del]

text \<open>
  \<^verbatim>\<open>getNextOptimalSlot\<close> once the table and \<^verbatim>\<open>now\<close> have been read. The fallback reads
  \<^verbatim>\<open>optimal.bestHours[0]\<close>; with no hour the date is invalid and \<^verbatim>\<open>toISOString\<close> throws.
  The field \<^verbatim>\<open>timezone\<close> of the table is never read.
\<close>

definition nextOptimalSlotAt :: "int \<Rightarrow> optimal \<Rightarrow> timestamp \<Rightarrow> js_error + timestamp" where
  "nextOptimalSlotAt offset opt now =
     (case scanDays offset opt now 0 of
        Some slotTime \<Rightarrow> Inr slotTime
      | None \<Rightarrow>
          (case bestHours opt of
             [] \<Rightarrow> Inl (RangeError ''Invalid time value'')
           | hour # _ \<Rightarrow> Inr (setHours offset (addDays now 1) hour)))"

text \<open>
  The planner as the specification words it: the candidate instants in scan order (day offsets
  0 to 6, on preferred weekdays the preferred hours in table order), the first one after
  \<open>now\<close>, else tomorrow at the first preferred hour.
\<close>

definition spec_candidates :: "int \<Rightarrow> optimal \<Rightarrow> timestamp \<Rightarrow> timestamp list" where
  "spec_candidates offset opt now =
     concat (map (\<lambda>d. if dayName offset (addDays now (int d)) \<in> set (bestDays opt)
                       then map (setHours offset (addDays now (int d))) (bestHours opt) else [])
                 [0..<7])"

definition spec_nextSlot :: "int \<Rightarrow> optimal \<Rightarrow> timestamp \<Rightarrow> js_error + timestamp" where
  "spec_nextSlot offset opt now =
     (case find (\<lambda>t. now < t) (spec_candidates offset opt now) of
        Some t \<Rightarrow> Inr t
      | None \<Rightarrow>
          (case bestHours opt of
             [] \<Rightarrow> Inl (RangeError ''Invalid time value'')
           | hour # _ \<Rightarrow> Inr (setHours offset (addDays now 1) hour)))"

subsection \<open>The environment and the store\<close>

text \<open>
  What a client sees of one request: \<^verbatim>\<open>axios.post\<close> resolves with a reply, whose body
  carries an identifier or none (\<^verbatim>\<open>response.data.id\<close> is then \<^verbatim>\<open>undefined\<close>), or the request
  is rejected, or reading the reply throws.
\<close>

datatype http_reply = Response "string option" | Rejected js_error

text \<open>
  The clock (\<^verbatim>\<open>new Date()\<close>, \<^verbatim>\<open>Date.now()\<close>, \<^verbatim>\<open>CURRENT_TIMESTAMP\<close>) and the remote replies,
  by interaction count, the offset of the process's time zone, and whether each key of
  \<^verbatim>\<open>process.env\<close> is set.
\<close>

record world =
  clock :: "nat \<Rightarrow> timestamp"
  localOffset :: int
  http :: "nat \<Rightarrow> http_reply"
  facebookAppId :: bool
  linkedinClientId :: bool
  twitterBearerToken :: bool
  instagramAppId :: bool

text \<open>
  An element of a parsed JSON array: a string, or an object. As a property key the object is
  the text \<^verbatim>\<open>[object Object]\<close>; the database library cannot bind it to a statement. (The
  other kinds of element, numbers, booleans, null and arrays, can be bound; they are not
  modelled.)
\<close>

datatype json_elem = Str string | Obj

definition propertyKey :: "json_elem \<Rightarrow> string" where
  "propertyKey e = (case e of Str s \<Rightarrow> s | Obj \<Rightarrow> ''[object Object]'')"

text \<open>
  A TEXT column that holds JSON (\<^verbatim>\<open>posts.platforms\<close>, \<^verbatim>\<open>posts.media_urls\<close>): NULL or the
  empty string, a text \<^verbatim>\<open>JSON.parse\<close> rejects, or a text that parses to an array of strings
  (\<open>JArray\<close>), to an array with elements that are objects (\<open>JMixed\<close>), or to a value that cannot
  be iterated (\<open>JObject\<close>).
\<close>

datatype json_value = JArray "string list" | JMixed "json_elem list" | JObject

datatype json_text = NoText | Unparsable | Parses json_value

text \<open>
  A stored value of a column without a fixed type: the routes store in \<^verbatim>\<open>scheduled_at\<close>
  whatever the request carried, which is NULL, a number (an integer here), a text (one that
  does not read as a number, since the column would store that as the number) or a blob (the
  bytes of an array).
\<close>

datatype sql_value = SqlNull | SqlNumber int | SqlText string | SqlBlob string

text \<open>
  The order of SQLite on stored values, by a key that sorts as it does: NULL first, then the
  numbers by value, then the texts byte by byte, then the blobs byte by byte.
\<close>

definition sqlKey :: "sql_value \<Rightarrow> nat \<times> int \<times> string" where
  "sqlKey v =
     (case v of
        SqlNull \<Rightarrow> (0, 0, [])
      | SqlNumber n \<Rightarrow> (1, n, [])
      | SqlText s \<Rightarrow> (2, 0, s)
      | SqlBlob b \<Rightarrow> (3, 0, b))"

text \<open>\<^verbatim>\<open>column <= ?\<close> in a WHERE clause: a comparison with NULL selects nothing.\<close>

definition sqlLessEq :: "sql_value \<Rightarrow> sql_value \<Rightarrow> bool" where
  "sqlLessEq a b = (a \<noteq> SqlNull \<and> b \<noteq> SqlNull \<and> sqlKey a \<le> sqlKey b)"

record post =
  p_id :: int
  p_user_id :: int
  p_content :: string
  p_media_urls :: json_text
  p_platforms :: json_text
  p_status :: string
  p_scheduled_at :: sql_value
  p_published_at :: "timestamp option"
  p_updated_at :: "timestamp option"

text \<open>The identifier of a remote post: the platform's, or the demo mode's prefix and time.\<close>

datatype ext_id = RemoteId string | DemoId string timestamp

record platform_post =
  pp_post_id :: int
  pp_platform :: string
  pp_content :: "string option"
  pp_platform_post_id :: "ext_id option"
  pp_status :: string
  pp_published_at :: "timestamp option"
  pp_error_message :: "string option"

record social_account =
  a_user_id :: int
  a_platform :: string
  a_account_name :: string
  a_account_id :: "string option"
  a_access_token :: "string option"
  a_is_active :: int

record store =
  users :: "int list"
  social_accounts :: "social_account list"
  posts :: "post list"
  platform_posts :: "platform_post list"
  step :: nat

definition readClock :: "world \<Rightarrow> store \<Rightarrow> timestamp \<times> store" where
  "readClock w st = (clock w (step st), st\<lparr>step := Suc (step st)\<rparr>)"

definition axiosPost :: "world \<Rightarrow> store \<Rightarrow> http_reply \<times> store" where
  "axiosPost w st = (http w (step st), st\<lparr>step := Suc (step st)\<rparr>)"

text \<open>
  A reply the dispatcher can record: a resolved request carries an identifier, and a rejected
  one carries an \<^verbatim>\<open>Error\<close> object, which has a message.
\<close>

definition usableReply :: "http_reply \<Rightarrow> bool" where
  "usableReply reply =
     (case reply of
        Response i \<Rightarrow> i \<noteq> None
      | Rejected e \<Rightarrow> message e \<noteq> None)"

subsection \<open>Platform clients (publisher.js)\<close>

text \<open>A result object; a field the object does not have is \<open>None\<close>.\<close>

record dispatch_result =
  success :: bool
  postId :: "ext_id option"
  error :: "string option"
  skipped :: bool
  demo :: bool

type_synonym client =
  "world \<Rightarrow> store \<Rightarrow> social_account \<Rightarrow> string \<Rightarrow> json_value
     \<Rightarrow> (js_error + dispatch_result) \<times> store"

text \<open>\<^verbatim>\<open>return { success: true, postId: response.data.id }\<close>\<close>

definition remoteResult :: "string option \<Rightarrow> dispatch_result" where
  "remoteResult i =
     \<lparr>success = True, postId = map_option RemoteId i, error = None, skipped = False,
      demo = False\<rparr>"

text \<open>\<^verbatim>\<open>return { success: true, postId: `fb_demo_${Date.now()}`, demo: true }\<close>\<close>

definition demoResult :: "string \<Rightarrow> world \<Rightarrow> store \<Rightarrow> (js_error + dispatch_result) \<times> store" where
  "demoResult prefix w st =
     (let (t, st1) = readClock w st
      in (Inr \<lparr>success = True, postId = Some (DemoId prefix t), error = None,
               skipped = False, demo = True\<rparr>, st1))"

text \<open>
  One request inside \<^verbatim>\<open>try { ... } catch (error) { console.error(...); throw error; }\<close>.
\<close>

definition postRemote :: "world \<Rightarrow> store \<Rightarrow> (js_error + dispatch_result) \<times> store" where
  "postRemote w st =
     (case axiosPost w st of
        (Response i, st1) \<Rightarrow> (Inr (remoteResult i), st1)
      | (Rejected e, st1) \<Rightarrow> (Inl e, st1))"

definition facebookPost :: client where
  "facebookPost w st account content mediaUrls =
     (if facebookAppId w \<and> a_access_token account \<noteq> Some ''demo-token''
      then postRemote w st
      else demoResult ''fb_demo_'' w st)"

definition linkedinPost :: client where
  "linkedinPost w st account content mediaUrls =
     (if linkedinClientId w \<and> a_access_token account \<noteq> Some ''demo-token''
      then postRemote w st
      else demoResult ''li_demo_'' w st)"

definition twitterPost :: client where
  "twitterPost w st account content mediaUrls =
     (if twitterBearerToken w \<and> a_access_token account \<noteq> Some ''demo-token''
      then postRemote w st
      else demoResult ''tw_demo_'' w st)"

text \<open>\<^verbatim>\<open>!mediaUrls || mediaUrls.length === 0\<close>\<close>

definition noMedia :: "json_value \<Rightarrow> bool" where
  "noMedia mediaUrls =
     (case mediaUrls of
        JArray urls \<Rightarrow> length urls = 0
      | JMixed elems \<Rightarrow> length elems = 0
      | JObject \<Rightarrow> False)"

text \<open>Instagram refuses a post without media, and otherwise makes two requests.\<close>

definition instagramPost :: client where
  "instagramPost w st account content mediaUrls =
     (if noMedia mediaUrls then
        (Inr \<lparr>success = False, postId = None,
              error = Some ''Instagram requires at least one image'',
              skipped = True, demo = False\<rparr>, st)
      else if instagramAppId w \<and> a_access_token account \<noteq> Some ''demo-token'' then
        (case axiosPost w st of
           (Rejected e, st1) \<Rightarrow> (Inl e, st1)
         | (Response creation, st1) \<Rightarrow> postRemote w st1)
      else demoResult ''ig_demo_'' w st)"

definition platformClients :: "(string \<times> client) list" where
  "platformClients =
     [(''facebook'', facebookPost), (''linkedin'', linkedinPost),
      (''twitter'', twitterPost), (''instagram'', instagramPost)]"

subsection \<open>publishPost (publisher.js)\<close>

text \<open>
  The own enumerable properties of the object \<^verbatim>\<open>results\<close>, in insertion order (JavaScript
  lists names that read as array indices first; nothing below depends on the order).
\<close>

type_synonym results = "(string \<times> dispatch_result) list"

text \<open>
  \<^verbatim>\<open>results[platform] = value\<close>. Assigning to \<^verbatim>\<open>__proto__\<close> replaces the prototype of the
  object and adds no property of its own.
\<close>

definition setResult :: "string \<Rightarrow> dispatch_result \<Rightarrow> results \<Rightarrow> results" where
  "setResult key v rs = (if key = ''__proto__'' then rs else AList.update key v rs)"

text \<open>\<^verbatim>\<open>{ success: false, error: ... }\<close>\<close>

definition failed :: "string \<Rightarrow> dispatch_result" where
  "failed msg =
     \<lparr>success = False, postId = None, error = Some msg, skipped = False, demo = False\<rparr>"

text \<open>\<^verbatim>\<open>{ success: false, error: error.message }\<close> in the \<^verbatim>\<open>catch\<close> block.\<close>

definition caught :: "js_error \<Rightarrow> dispatch_result" where
  "caught e =
     \<lparr>success = False, postId = None, error = message e, skipped = False, demo = False\<rparr>"

text \<open>\<^verbatim>\<open>JSON.parse(column || '[]')\<close>\<close>

definition parseOrEmpty :: "json_text \<Rightarrow> js_error + json_value" where
  "parseOrEmpty column =
     (case column of
        NoText \<Rightarrow> Inr (JArray [])
      | Unparsable \<Rightarrow> Inl (SyntaxError ''Unexpected token in JSON'')
      | Parses v \<Rightarrow> Inr v)"

text \<open>
  \<^verbatim>\<open>SELECT * FROM social_accounts WHERE user_id = ? AND platform = ? AND is_active = 1 LIMIT 1\<close>
  through \<^verbatim>\<open>get\<close>, which catches what binding throws and answers \<^verbatim>\<open>undefined\<close>.
\<close>

definition findActiveAccount :: "store \<Rightarrow> int \<Rightarrow> json_elem \<Rightarrow> social_account option" where
  "findActiveAccount st userId platform =
     (case platform of
        Obj \<Rightarrow> None
      | Str name \<Rightarrow>
          find (\<lambda>a. a_user_id a = userId \<and> a_platform a = name \<and> a_is_active a = 1)
               (social_accounts st))"

text \<open>
  What \<^verbatim>\<open>run\<close> throws, uncaught, when a parameter is \<^verbatim>\<open>undefined\<close> or an object: the
  database library throws a string, and the statement is not executed.
\<close>

definition wrongApiUse :: js_error where
  "wrongApiUse = Thrown ''Wrong API use : tried to bind a value of an unknown type''"

text \<open>
  \<^verbatim>\<open>UPDATE platform_posts SET status = 'failed', error_message = ? WHERE post_id = ? AND platform = ?\<close>
  run with a message that may be \<^verbatim>\<open>undefined\<close> (\<open>None\<close>).
\<close>

definition failPlatformPost :: "store \<Rightarrow> string option \<Rightarrow> int \<Rightarrow> json_elem \<Rightarrow> js_error + store" where
  "failPlatformPost st msg postIdent platform =
     (case (msg, platform) of
        (Some m, Str name) \<Rightarrow>
          Inr (st\<lparr>platform_posts :=
                    map (\<lambda>r. if pp_post_id r = postIdent \<and> pp_platform r = name
                              then r\<lparr>pp_status := ''failed'', pp_error_message := Some m\<rparr>
                              else r)
                        (platform_posts st),
                  step := Suc (step st)\<rparr>)
      | _ \<Rightarrow> Inl wrongApiUse)"

text \<open>
  \<^verbatim>\<open>UPDATE platform_posts SET status = 'published', platform_post_id = ?,
  published_at = CURRENT_TIMESTAMP WHERE post_id = ? AND platform = ?\<close>
  run with an identifier that may be \<^verbatim>\<open>undefined\<close> (\<open>None\<close>).
\<close>

definition publishPlatformPost ::
    "world \<Rightarrow> store \<Rightarrow> ext_id option \<Rightarrow> int \<Rightarrow> json_elem \<Rightarrow> js_error + store" where
  "publishPlatformPost w st extId postIdent platform =
     (case (extId, platform) of
        (Some i, Str name) \<Rightarrow>
          Inr (st\<lparr>platform_posts :=
                    map (\<lambda>r. if pp_post_id r = postIdent \<and> pp_platform r = name
                              then r\<lparr>pp_status := ''published'', pp_platform_post_id := Some i,
                                     pp_published_at := Some (clock w (step st))\<rparr>
                              else r)
                        (platform_posts st),
                  step := Suc (step st)\<rparr>)
      | _ \<Rightarrow> Inl wrongApiUse)"

text \<open>
  \<^verbatim>\<open>SELECT * FROM platform_posts WHERE post_id = ? AND platform = ?\<close> through \<^verbatim>\<open>get\<close>, then
  \<^verbatim>\<open>platformPost?.content || post.content\<close>.
\<close>

definition platformContent :: "store \<Rightarrow> post \<Rightarrow> json_elem \<Rightarrow> string" where
  "platformContent st post platform =
     (case platform of
        Obj \<Rightarrow> p_content post
      | Str name \<Rightarrow>
          (case find (\<lambda>r. pp_post_id r = p_id post \<and> pp_platform r = name) (platform_posts st) of
             None \<Rightarrow> p_content post
           | Some r \<Rightarrow>
               (case pp_content r of
                  None \<Rightarrow> p_content post
                | Some c \<Rightarrow> if c = [] then p_content post else c)))"

text \<open>\<^verbatim>\<open>result.error || 'Unknown error'\<close>\<close>

definition errorOrUnknown :: "dispatch_result \<Rightarrow> string" where
  "errorOrUnknown result =
     (case error result of
        None \<Rightarrow> ''Unknown error''
      | Some m \<Rightarrow> if m = [] then ''Unknown error'' else m)"

text \<open>
  The body of the \<^verbatim>\<open>try\<close> block for one platform: what was thrown, if anything, with the
  results and the store as they are at that point. An inherited member found in
  \<^verbatim>\<open>platformClients\<close> is truthy and has no \<^verbatim>\<open>post\<close> method, so the call throws.
\<close>

definition attemptPlatform ::
    "world \<Rightarrow> post \<Rightarrow> int \<Rightarrow> json_value \<Rightarrow> json_elem \<Rightarrow> results \<Rightarrow> store
       \<Rightarrow> js_error option \<times> results \<times> store" where
  "attemptPlatform w post userId mediaUrls platform rs st =
     (case findActiveAccount st userId platform of
        None \<Rightarrow>
          (let rs1 = setResult (propertyKey platform)
                       (failed (''No connected '' @ propertyKey platform @ '' account found'')) rs
           in case failPlatformPost st (Some ''No connected account'') (p_id post) platform of
                Inl e \<Rightarrow> (Some e, rs1, st)
              | Inr st1 \<Rightarrow> (None, rs1, st1))
      | Some account \<Rightarrow>
          (case getProperty platformClients (propertyKey platform) of
             Missing \<Rightarrow>
               (None,
                setResult (propertyKey platform)
                  (failed (''Unsupported platform: '' @ propertyKey platform)) rs,
                st)
           | Inherited \<Rightarrow> (Some (TypeError ''client.post is not a function''), rs, st)
           | Own client \<Rightarrow>
               (case client w st account (platformContent st post platform) mediaUrls of
                  (Inl e, st1) \<Rightarrow> (Some e, rs, st1)
                | (Inr result, st1) \<Rightarrow>
                    (let rs1 = setResult (propertyKey platform) result rs
                     in case (if success result
                              then publishPlatformPost w st1 (postId result) (p_id post) platform
                              else failPlatformPost st1 (Some (errorOrUnknown result)) (p_id post)
                                     platform) of
                          Inl e \<Rightarrow> (Some e, rs1, st1)
                        | Inr st2 \<Rightarrow> (None, rs1, st2)))))"

text \<open>
  One iteration of \<^verbatim>\<open>for (const platform of platforms)\<close>, with its \<^verbatim>\<open>catch\<close>. The statement
  the \<^verbatim>\<open>catch\<close> block runs is outside every \<^verbatim>\<open>try\<close>: what it throws leaves \<^verbatim>\<open>publishPost\<close>.
\<close>

definition publishToPlatform ::
    "world \<Rightarrow> post \<Rightarrow> int \<Rightarrow> json_value \<Rightarrow> json_elem \<Rightarrow> results \<times> store
       \<Rightarrow> (js_error + results) \<times> store" where
  "publishToPlatform w post userId mediaUrls platform acc =
     (case attemptPlatform w post userId mediaUrls platform (fst acc) (snd acc) of
        (None, rs, st1) \<Rightarrow> (Inr rs, st1)
      | (Some e, rs, st1) \<Rightarrow>
          (case failPlatformPost st1 (message e) (p_id post) platform of
             Inl e2 \<Rightarrow> (Inl e2, st1)
           | Inr st2 \<Rightarrow> (Inr (setResult (propertyKey platform) (caught e) rs), st2)))"

fun publishToAll ::
    "world \<Rightarrow> post \<Rightarrow> int \<Rightarrow> json_value \<Rightarrow> json_elem list \<Rightarrow> results \<times> store
       \<Rightarrow> (js_error + results) \<times> store" where
  "publishToAll w post userId mediaUrls [] acc = (Inr (fst acc), snd acc)"
| "publishToAll w post userId mediaUrls (platform # platforms) acc =
     (case publishToPlatform w post userId mediaUrls platform acc of
        (Inl e, st1) \<Rightarrow> (Inl e, st1)
      | (Inr rs, st1) \<Rightarrow> publishToAll w post userId mediaUrls platforms (rs, st1))"

text \<open>\<^verbatim>\<open>for (const platform of platforms)\<close> over a value that cannot be iterated throws.\<close>

definition elements :: "json_value \<Rightarrow> js_error + json_elem list" where
  "elements v =
     (case v of
        JArray names \<Rightarrow> Inr (map Str names)
      | JMixed elems \<Rightarrow> Inr elems
      | JObject \<Rightarrow> Inl (TypeError ''platforms is not iterable''))"

text \<open>
  \<^verbatim>\<open>publishPost(post, userId)\<close>. Both columns are parsed before the loop and outside every
  \<^verbatim>\<open>try\<close>. A throw that leaves one iteration ends the loop.
\<close>

definition publishPost :: "world \<Rightarrow> store \<Rightarrow> post \<Rightarrow> int \<Rightarrow> (js_error + results) \<times> store" where
  "publishPost w st post userId =
     (case parseOrEmpty (p_platforms post) of
        Inl e \<Rightarrow> (Inl e, st)
      | Inr platforms \<Rightarrow>
          (case parseOrEmpty (p_media_urls post) of
             Inl e \<Rightarrow> (Inl e, st)
           | Inr mediaUrls \<Rightarrow>
               (case elements platforms of
                  Inl e \<Rightarrow> (Inl e, st)
                | Inr elems \<Rightarrow> publishToAll w post userId mediaUrls elems ([], st))))"

subsection \<open>processScheduledPosts (scheduler.js)\<close>

text \<open>
  The due-post query, a read that leaves the store as it is:
  \<^verbatim>\<open>SELECT p.*, u.id as owner_id FROM posts p JOIN users u ON p.user_id = u.id
  WHERE p.status = 'scheduled' AND p.scheduled_at <= ? ORDER BY p.scheduled_at ASC LIMIT 10\<close>,
  run with the text \<^verbatim>\<open>new Date().toISOString()\<close>. A row is a post with its \<^verbatim>\<open>owner_id\<close>.
  The stored \<^verbatim>\<open>scheduled_at\<close> is compared with that text, and the rows are ordered, as SQLite
  orders stored values.
\<close>

type_synonym due_row = "post \<times> int"

definition isDue :: "string \<Rightarrow> post \<Rightarrow> bool" where
  "isDue now p = sqlLessEq (p_scheduled_at p) (SqlText now)"

definition dueRows :: "store \<Rightarrow> string \<Rightarrow> due_row list" where
  "dueRows st now =
     concat (map (\<lambda>p. map (\<lambda>u. (p, u)) (filter (\<lambda>u. p_user_id p = u) (users st)))
                 (filter (\<lambda>p. p_status p = ''scheduled'' \<and> isDue now p) (posts st)))"

definition selectDue :: "store \<Rightarrow> string \<Rightarrow> due_row list \<times> store" where
  "selectDue st now =
     (take 10 (sort_key (\<lambda>row. sqlKey (p_scheduled_at (fst row))) (dueRows st now)), st)"

text \<open>\<^verbatim>\<open>UPDATE posts SET status = 'processing' WHERE id = ?\<close>\<close>

definition markProcessing :: "store \<Rightarrow> int \<Rightarrow> store" where
  "markProcessing st ident =
     st\<lparr>posts := map (\<lambda>r. if p_id r = ident then r\<lparr>p_status := ''processing''\<rparr> else r) (posts st),
        step := Suc (step st)\<rparr>"

text \<open>
  \<^verbatim>\<open>UPDATE posts SET status = ?, published_at = CASE WHEN ? IN ('published', 'partial')
  THEN CURRENT_TIMESTAMP ELSE NULL END, updated_at = CURRENT_TIMESTAMP WHERE id = ?\<close>
\<close>

definition finishPost :: "world \<Rightarrow> store \<Rightarrow> string \<Rightarrow> int \<Rightarrow> store" where
  "finishPost w st finalStatus ident =
     st\<lparr>posts :=
          map (\<lambda>r. if p_id r = ident
                    then r\<lparr>p_status := finalStatus,
                           p_published_at :=
                             (if finalStatus = ''published'' \<or> finalStatus = ''partial''
                              then Some (clock w (step st)) else None),
                           p_updated_at := Some (clock w (step st))\<rparr>
                    else r)
              (posts st),
        step := Suc (step st)\<rparr>"

text \<open>
  \<^verbatim>\<open>UPDATE posts SET status = 'failed', updated_at = CURRENT_TIMESTAMP WHERE id = ?\<close>
\<close>

definition markFailed :: "world \<Rightarrow> store \<Rightarrow> int \<Rightarrow> store" where
  "markFailed w st ident =
     st\<lparr>posts :=
          map (\<lambda>r. if p_id r = ident
                    then r\<lparr>p_status := ''failed'', p_updated_at := Some (clock w (step st))\<rparr>
                    else r)
              (posts st),
        step := Suc (step st)\<rparr>"

text \<open>
  \<^verbatim>\<open>Object.values(publishResults).every(r => r.success)\<close>,
  \<^verbatim>\<open>Object.values(publishResults).some(r => r.success)\<close> and
  \<^verbatim>\<open>allSuccess ? 'published' : (anySuccess ? 'partial' : 'failed')\<close>.
\<close>

definition allSuccess :: "results \<Rightarrow> bool" where
  "allSuccess publishResults = list_all success (map snd publishResults)"

definition anySuccess :: "results \<Rightarrow> bool" where
  "anySuccess publishResults = list_ex success (map snd publishResults)"

definition finalStatus :: "results \<Rightarrow> string" where
  "finalStatus publishResults =
     (if allSuccess publishResults then ''published''
      else if anySuccess publishResults then ''partial'' else ''failed'')"

record tick_entry =
  e_postId :: int
  e_status :: string
  e_platforms :: "results option"
  e_error :: "string option"

record report =
  processed :: nat
  r_results :: "tick_entry list option"

text \<open>The body of the \<^verbatim>\<open>try\<close> block for one selected post.\<close>

definition attemptPost :: "world \<Rightarrow> due_row \<Rightarrow> store \<Rightarrow> (js_error + tick_entry) \<times> store" where
  "attemptPost w row st =
     (case publishPost w (markProcessing st (p_id (fst row))) (fst row) (snd row) of
        (Inl e, st1) \<Rightarrow> (Inl e, st1)
      | (Inr publishResults, st1) \<Rightarrow>
          (Inr \<lparr>e_postId = p_id (fst row), e_status = finalStatus publishResults,
                e_platforms = Some publishResults, e_error = None\<rparr>,
           finishPost w st1 (finalStatus publishResults) (p_id (fst row))))"

text \<open>
  One iteration of \<^verbatim>\<open>for (const post of scheduledPosts)\<close>, with its \<^verbatim>\<open>catch\<close>, which
  records \<^verbatim>\<open>error.message\<close>.
\<close>

definition processPost :: "world \<Rightarrow> due_row \<Rightarrow> tick_entry list \<times> store \<Rightarrow> tick_entry list \<times> store" where
  "processPost w row acc =
     (case attemptPost w row (snd acc) of
        (Inr entry, st1) \<Rightarrow> (fst acc @ [entry], st1)
      | (Inl e, st1) \<Rightarrow>
          (fst acc @ [\<lparr>e_postId = p_id (fst row), e_status = ''failed'', e_platforms = None,
                       e_error = message e\<rparr>],
           markFailed w st1 (p_id (fst row))))"

fun processAll :: "world \<Rightarrow> due_row list \<Rightarrow> tick_entry list \<times> store \<Rightarrow> tick_entry list \<times> store" where
  "processAll w [] acc = acc"
| "processAll w (row # rows) acc = processAll w rows (processPost w row acc)"

definition processScheduledPosts :: "world \<Rightarrow> store \<Rightarrow> report \<times> store" where
  "processScheduledPosts w st =
     (case readClock w st of
        (now, st0) \<Rightarrow>
          (case selectDue st0 (toISOString now) of
             (scheduledPosts, st1) \<Rightarrow>
               if length scheduledPosts = 0 then (\<lparr>processed = 0, r_results = None\<rparr>, st1)
               else (case processAll w scheduledPosts ([], st1) of
                       (rs, st2) \<Rightarrow> (\<lparr>processed = length rs, r_results = Some rs\<rparr>, st2))))"

subsection \<open>The optimal-time planner (scheduler.js)\<close>

text \<open>
  \<^verbatim>\<open>getNextOptimalSlot(platform)\<close>: it reads the clock itself. When the lookup returned an
  inherited member, \<^verbatim>\<open>optimal.bestDays\<close> is \<^verbatim>\<open>undefined\<close> and the first test of the loop throws.
  The slot is kept as the instant; its text is \<^verbatim>\<open>toISOString\<close> of it, and \<^verbatim>\<open>new Date\<close> of
  that text is the instant again. The platform is the property key of the list element.
\<close>

definition getNextOptimalSlot :: "world \<Rightarrow> store \<Rightarrow> string \<Rightarrow> (js_error + timestamp) \<times> store" where
  "getNextOptimalSlot w st platform =
     (case readClock w st of
        (now, st1) \<Rightarrow>
          (case getOptimalPostingTimes None platform of
             None \<Rightarrow> (Inl (TypeError ''Cannot read properties of undefined''), st1)
           | Some opt \<Rightarrow> (nextOptimalSlotAt (localOffset w) opt now, st1)))"

record slot =
  s_platform :: string
  s_time :: timestamp

text \<open>\<^verbatim>\<open>platforms.map(platform => ({ platform, time: getNextOptimalSlot(platform) }))\<close>\<close>

fun slotsFor :: "world \<Rightarrow> store \<Rightarrow> string list \<Rightarrow> (js_error + slot list) \<times> store" where
  "slotsFor w st [] = (Inr [], st)"
| "slotsFor w st (platform # platforms) =
     (case getNextOptimalSlot w st platform of
        (Inl e, st1) \<Rightarrow> (Inl e, st1)
      | (Inr t, st1) \<Rightarrow>
          (case slotsFor w st1 platforms of
             (Inl e, st2) \<Rightarrow> (Inl e, st2)
           | (Inr rest, st2) \<Rightarrow> (Inr (\<lparr>s_platform = platform, s_time = t\<rparr> # rest), st2)))"

text \<open>
  \<^verbatim>\<open>slots.reduce((earliest, current) =>
  new Date(current.time) < new Date(earliest.time) ? current : earliest)\<close>: no initial value,
  so the first slot starts the fold and an empty array throws.
\<close>

definition earliestOf :: "slot list \<Rightarrow> js_error + slot" where
  "earliestOf slots =
     (case slots of
        [] \<Rightarrow> Inl (TypeError ''Reduce of empty array with no initial value'')
      | first # rest \<Rightarrow>
          Inr (foldl (\<lambda>earliest current. if s_time current < s_time earliest then current else earliest)
                     first rest))"

text \<open>
  \<^verbatim>\<open>UPDATE posts SET scheduled_at = ?, status = 'scheduled', updated_at = CURRENT_TIMESTAMP
  WHERE id = ?\<close>, run with the text of the slot.
\<close>

definition setScheduled :: "world \<Rightarrow> store \<Rightarrow> timestamp \<Rightarrow> int \<Rightarrow> store" where
  "setScheduled w st t ident =
     st\<lparr>posts :=
          map (\<lambda>r. if p_id r = ident
                    then r\<lparr>p_scheduled_at := SqlText (toISOString t), p_status := ''scheduled'',
                           p_updated_at := Some (clock w (step st))\<rparr>
                    else r)
              (posts st),
        step := Suc (step st)\<rparr>"

record plan =
  scheduledAt :: timestamp
  recommendations :: "slot list"

definition scheduleForOptimalTime ::
    "world \<Rightarrow> store \<Rightarrow> int \<Rightarrow> string list \<Rightarrow> (js_error + plan) \<times> store" where
  "scheduleForOptimalTime w st ident platforms =
     (case slotsFor w st platforms of
        (Inl e, st1) \<Rightarrow> (Inl e, st1)
      | (Inr slots, st1) \<Rightarrow>
          (case earliestOf slots of
             Inl e \<Rightarrow> (Inl e, st1)
           | Inr earliestSlot \<Rightarrow>
               (Inr \<lparr>scheduledAt = s_time earliestSlot, recommendations = slots\<rparr>,
                setScheduled w st1 (s_time earliestSlot) ident)))"

subsection \<open>The "publish now" route (posts router)\<close>

datatype http_response =
    NotFound
  | BadRequest string
  | ServerError string
  | Published results

text \<open>
  \<^verbatim>\<open>UPDATE posts SET status = 'published', published_at = CURRENT_TIMESTAMP,
  updated_at = CURRENT_TIMESTAMP WHERE id = ?\<close>
\<close>

definition markPublished :: "world \<Rightarrow> store \<Rightarrow> int \<Rightarrow> store" where
  "markPublished w st ident =
     st\<lparr>posts :=
          map (\<lambda>r. if p_id r = ident
                    then r\<lparr>p_status := ''published'', p_published_at := Some (clock w (step st)),
                           p_updated_at := Some (clock w (step st))\<rparr>
                    else r)
              (posts st),
        step := Suc (step st)\<rparr>"

text \<open>
  \<^verbatim>\<open>router.post('/:id/publish', ...)\<close>: the post of that user
  (\<^verbatim>\<open>SELECT * FROM posts WHERE id = ? AND user_id = ?\<close>), refused when already published,
  then \<^verbatim>\<open>publishPost\<close> and the update; an exception answers 500.
\<close>

definition publishNow :: "world \<Rightarrow> store \<Rightarrow> int \<Rightarrow> int \<Rightarrow> http_response \<times> store" where
  "publishNow w st ident userId =
     (case find (\<lambda>p. p_id p = ident \<and> p_user_id p = userId) (posts st) of
        None \<Rightarrow> (NotFound, st)
      | Some post \<Rightarrow>
          if p_status post = ''published'' then (BadRequest ''Post already published'', st)
          else (case publishPost w st post userId of
                  (Inl e, st1) \<Rightarrow> (ServerError ''Failed to publish post'', st1)
                | (Inr rs, st1) \<Rightarrow> (Published rs, markPublished w st1 ident)))"

subsection \<open>Example inputs\<close>

text \<open>
  A world whose clock starts on Wednesday 7 January 1970 at 10:00 UTC and advances one
  millisecond per interaction, whose process runs in UTC, where only the Facebook key is
  configured and every remote request is rejected.
\<close>

definition exWorld :: world where
  "exWorld =
     \<lparr>clock = (\<lambda>n. 554400000 + int n),
      localOffset = 0,
      http = (\<lambda>n. Rejected (RequestError ''Request failed with status code 401'')),
      facebookAppId = True, linkedinClientId = False, twitterBearerToken = False,
      instagramAppId = False\<rparr>"

text \<open>
  A post scheduled for an instant carries the text \<^verbatim>\<open>toISOString\<close> gives for it, as the
  planner and a client sending ISO texts store it.
\<close>

definition exPost :: "int \<Rightarrow> string \<Rightarrow> timestamp option \<Rightarrow> json_text \<Rightarrow> post" where
  "exPost ident st at names =
     \<lparr>p_id = ident, p_user_id = 7, p_content = ''hello'', p_media_urls = NoText,
      p_platforms = names, p_status = st,
      p_scheduled_at = (case at of None \<Rightarrow> SqlNull | Some t \<Rightarrow> SqlText (toISOString t)),
      p_published_at = None, p_updated_at = None\<rparr>"

definition exAccount :: "string \<Rightarrow> string \<Rightarrow> social_account" where
  "exAccount platform token =
     \<lparr>a_user_id = 7, a_platform = platform, a_account_name = ''acme'', a_account_id = Some ''42'',
      a_access_token = Some token, a_is_active = 1\<rparr>"

definition exStore :: "social_account list \<Rightarrow> post list \<Rightarrow> store" where
  "exStore accounts rows =
     \<lparr>users = [7], social_accounts = accounts, posts = rows, platform_posts = [], step = 0\<rparr>"

text \<open>
  A post aimed at Twitter (no connected account), Instagram (connected, but the post has no
  media) and Facebook (connected with a live token, and the request is rejected).
\<close>

definition exDispatchPost :: post where
  "exDispatchPost =
     exPost 5 ''scheduled'' (Some 0) (Parses (JArray [''twitter'', ''instagram'', ''facebook'']))"

definition exDispatchStore :: store where
  "exDispatchStore =
     exStore [exAccount ''instagram'' ''demo-token'', exAccount ''facebook'' ''live-token'']
             [exDispatchPost]"

text \<open>Posts for the due-post selection at the instant 100 ms after the epoch.\<close>

definition exSelectStore :: store where
  "exSelectStore =
     exStore [] [exPost 1 ''scheduled'' (Some 30) NoText, exPost 2 ''draft'' (Some 5) NoText,
                 exPost 3 ''scheduled'' (Some 10) NoText, exPost 4 ''scheduled'' (Some 200) NoText,
                 exPost 6 ''scheduled'' None NoText]"

text \<open>
  A tick over four posts: post 1 is due and goes to Twitter in demo mode, post 2 is a draft,
  post 3 is due first and its \<^verbatim>\<open>platforms\<close> column does not parse, post 4 is due much later.
\<close>

definition exTickStore :: store where
  "exTickStore =
     exStore [exAccount ''twitter'' ''demo-token'']
       [exPost 1 ''scheduled'' (Some 10) (Parses (JArray [''twitter''])),
        exPost 2 ''draft'' None (Parses (JArray [''twitter''])),
        exPost 3 ''scheduled'' (Some 5) Unparsable,
        exPost 4 ''scheduled'' (Some 999999999999) (Parses (JArray [''twitter'']))]"

text \<open>
  A due post for Twitter and Instagram, both connected in demo mode, without media: Twitter
  succeeds and Instagram refuses.
\<close>

definition exMixedPost :: post where
  "exMixedPost = exPost 1 ''scheduled'' (Some 10) (Parses (JArray [''twitter'', ''instagram'']))"

definition exMixedStore :: store where
  "exMixedStore =
     exStore [exAccount ''twitter'' ''demo-token'', exAccount ''instagram'' ''demo-token'']
             [exMixedPost]"

text \<open>A due post that carries a \<^verbatim>\<open>published_at\<close> from an earlier run; no account is connected.\<close>

definition exStalePost :: post where
  "exStalePost =
     (exPost 8 ''scheduled'' (Some 3) (Parses (JArray [''twitter''])))\<lparr>p_published_at := Some 2\<rparr>"

definition exStaleStore :: store where
  "exStaleStore = exStore [] [exStalePost]"

text \<open>A due post whose list of platforms is the empty array.\<close>

definition exEmptyTargetsStore :: store where
  "exEmptyTargetsStore = exStore [] [exPost 1 ''scheduled'' (Some 1) (Parses (JArray []))]"

text \<open>Eleven due posts for Twitter, with no connected account.\<close>

definition exCrowdedStore :: store where
  "exCrowdedStore =
     exStore []
       [exPost 1 ''scheduled'' (Some 1) (Parses (JArray [''twitter''])),
        exPost 2 ''scheduled'' (Some 2) (Parses (JArray [''twitter''])),
        exPost 3 ''scheduled'' (Some 3) (Parses (JArray [''twitter''])),
        exPost 4 ''scheduled'' (Some 4) (Parses (JArray [''twitter''])),
        exPost 5 ''scheduled'' (Some 5) (Parses (JArray [''twitter''])),
        exPost 6 ''scheduled'' (Some 6) (Parses (JArray [''twitter''])),
        exPost 7 ''scheduled'' (Some 7) (Parses (JArray [''twitter''])),
        exPost 8 ''scheduled'' (Some 8) (Parses (JArray [''twitter''])),
        exPost 9 ''scheduled'' (Some 9) (Parses (JArray [''twitter''])),
        exPost 10 ''scheduled'' (Some 10) (Parses (JArray [''twitter''])),
        exPost 11 ''scheduled'' (Some 11) (Parses (JArray [''twitter'']))]"

text \<open>A draft for Twitter, with no connected account.\<close>

definition exDraftStore :: store where
  "exDraftStore = exStore [] [exPost 1 ''draft'' None (Parses (JArray [''twitter'']))]"

text \<open>
  A post that carries a \<^verbatim>\<open>published_at\<close> from an earlier run and is scheduled again, after its
  \<^verbatim>\<open>platforms\<close> column was replaced by the text of a JSON object.
\<close>

definition exRepublishStore :: store where
  "exRepublishStore =
     exStore [] [(exPost 8 ''scheduled'' (Some 3) (Parses JObject))\<lparr>p_published_at := Some 2\<rparr>]"

text \<open>
  Three scheduled posts as the routes can store them: one with an ISO text, one with a number
  (the instant 9999999999999, in the year 2286) and one with a text in another format.
\<close>

definition exRawStore :: store where
  "exRawStore =
     exStore []
       [exPost 1 ''scheduled'' (Some 10) NoText,
        (exPost 2 ''scheduled'' None NoText)\<lparr>p_scheduled_at := SqlNumber 9999999999999\<rparr>,
        (exPost 3 ''scheduled'' None NoText)\<lparr>p_scheduled_at := SqlText ''1970-01-07 23:00:00''\<rparr>]"

text \<open>
  A post whose list of platforms holds an object before Twitter, and a post aimed at the
  name \<^verbatim>\<open>__proto__\<close> and at Twitter; no account is connected.
\<close>

definition exObjectPost :: post where
  "exObjectPost = exPost 5 ''scheduled'' (Some 0) (Parses (JMixed [Obj, Str ''twitter'']))"

definition exProtoPost :: post where
  "exProtoPost = exPost 5 ''scheduled'' (Some 0) (Parses (JArray [''__proto__'', ''twitter'']))"

text \<open>
  A world where the Twitter key is configured too and every request resolves with a body
  that carries no identifier, and a post for Twitter and Facebook, both connected, Twitter
  with a live token.
\<close>

definition exSilentWorld :: world where
  "exSilentWorld = exWorld\<lparr>http := (\<lambda>n. Response None), twitterBearerToken := True\<rparr>"

definition exSilentPost :: post where
  "exSilentPost = exPost 5 ''scheduled'' (Some 0) (Parses (JArray [''twitter'', ''facebook'']))"

definition exSilentStore :: store where
  "exSilentStore =
     exStore [exAccount ''twitter'' ''live-token'', exAccount ''facebook'' ''demo-token'']
             [exSilentPost]"

section \<open>Properties\<close>

subsection \<open>Content limits\<close>

lemma maxLength_cases:
  "maxLength p = (if p \<in> set objectPrototypeNames then None else Some (spec_limit p))"
  by (simp add: maxLength_def getProperty_def limits_def objectPrototypeNames_def spec_limit_def)

lemma spec_limit_ge3: "3 \<le> spec_limit p"
  by (simp add: spec_limit_def)

lemma spec_limit_inherited: "p \<in> set objectPrototypeNames \<Longrightarrow> spec_limit p = 1000"
  by (auto simp: spec_limit_def objectPrototypeNames_def)

lemma adaptContent_inherited:
  "p \<in> set objectPrototypeNames \<Longrightarrow> adaptContentForPlatform c p = ''...''"
  by (simp add: adaptContentForPlatform_def maxLength_cases)

lemma adaptContent_own:
  "p \<notin> set objectPrototypeNames \<Longrightarrow>
   adaptContentForPlatform c p =
     (if length c \<le> spec_limit p then c else take (spec_limit p - 3) c @ ''...'')"
  by (simp add: adaptContentForPlatform_def maxLength_cases)

lemma adaptContent_length: "length (adaptContentForPlatform c p) \<le> spec_limit p"
proof (cases "p \<in> set objectPrototypeNames")
  case True
  then show ?thesis by (simp add: adaptContent_inherited spec_limit_inherited)
next
  case False
  then show ?thesis using spec_limit_ge3 [of p] by (auto simp: adaptContent_own)
qed

lemma adaptContent_idem:
  "adaptContentForPlatform (adaptContentForPlatform c p) p = adaptContentForPlatform c p"
proof (cases "p \<in> set objectPrototypeNames")
  case True
  then show ?thesis by (simp add: adaptContent_inherited)
next
  case False
  then show ?thesis
    using adaptContent_length [of c p]
    by (simp add: adaptContent_own [of p "adaptContentForPlatform c p"])
qed

lemma adaptContent_same:
  assumes "p \<notin> set objectPrototypeNames"
  shows "(adaptContentForPlatform c p = c) = (length c \<le> spec_limit p)"
proof (cases "length c \<le> spec_limit p")
  case True
  then show ?thesis using assms by (simp add: adaptContent_own)
next
  case False
  then have "length (adaptContentForPlatform c p) = spec_limit p"
    using assms spec_limit_ge3 [of p] by (auto simp: adaptContent_own)
  then have "length (adaptContentForPlatform c p) \<noteq> length c" using False by simp
  then have "adaptContentForPlatform c p \<noteq> c" by auto
  with False show ?thesis by simp
qed

text \<open>
  Claim C10, amended. For every content string and every platform name,
  \<^verbatim>\<open>adaptContentForPlatform\<close> returns a string no longer than the platform's limit (280 twitter,
  63206 facebook, 3000 linkedin, 2200 instagram, 1000 otherwise), and applying it twice is
  applying it once. For every platform name that is not a property name inherited from
  \<^verbatim>\<open>Object.prototype\<close>, it returns the content unchanged exactly when the content is within
  the limit.
\<close>

theorem adaptContent_bounded_idempotent:
  "length (adaptContentForPlatform c p) \<le> spec_limit p
   \<and> adaptContentForPlatform (adaptContentForPlatform c p) p = adaptContentForPlatform c p
   \<and> (p \<notin> set objectPrototypeNames \<longrightarrow>
        (adaptContentForPlatform c p = c) = (length c \<le> spec_limit p))"
  using adaptContent_length [of c p] adaptContent_idem [of c p] adaptContent_same [of p c]
  by blast

text \<open>A content of five characters is returned as it is for \<^verbatim>\<open>twitter\<close>.\<close>

theorem adaptContent_bounded_idempotent_witness:
  "''twitter'' \<notin> set objectPrototypeNames
   \<and> length ''hello'' \<le> spec_limit ''twitter''
   \<and> adaptContentForPlatform ''hello'' ''twitter'' = ''hello''"
proof -
  have a: "''twitter'' \<notin> set objectPrototypeNames" by (simp add: objectPrototypeNames_def)
  have b: "length ''hello'' \<le> spec_limit ''twitter''" by (simp add: spec_limit_def)
  from adaptContent_bounded_idempotent [of "''hello''" "''twitter''"] a b
  have d: "adaptContentForPlatform ''hello'' ''twitter'' = ''hello''" by blast
  from a b d show ?thesis by (intro conjI)
qed

text \<open>
  Claim C10 as worded fails: the platform name \<^verbatim>\<open>constructor\<close> is none of the four platforms,
  the content \<^verbatim>\<open>hello\<close> is within the limit of 1000, and the function returns \<^verbatim>\<open>...\<close>, not the
  content.
\<close>

theorem adaptContent_replaces_short_content:
  "spec_limit ''constructor'' = 1000
   \<and> length ''hello'' \<le> spec_limit ''constructor''
   \<and> adaptContentForPlatform ''hello'' ''constructor'' = ''...''
   \<and> adaptContentForPlatform ''hello'' ''constructor'' \<noteq> ''hello''"
  by (simp add: adaptContentForPlatform_def maxLength_def getProperty_def limits_def
      objectPrototypeNames_def spec_limit_def)

subsection \<open>The optimal-time planner for one platform\<close>

lemma dayName_index:
  assumes "dayName offset now = ''Wednesday''"
  shows "((now + offset) div msPerDay + 4) mod 7 = 3"
proof -
  define k where "k = ((now + offset) div msPerDay + 4) mod 7"
  have "0 \<le> k" "k < 7" by (simp_all add: k_def)
  then have "k = 0 \<or> k = 1 \<or> k = 2 \<or> k = 3 \<or> k = 4 \<or> k = 5 \<or> k = 6" by arith
  moreover have "weekdayNames ! nat k = ''Wednesday''"
    using assms by (simp add: dayName_def k_def)
  ultimately show ?thesis
    unfolding k_def [symmetric] by (auto simp: weekdayNames_def)
qed

lemma shift_days:
  fixes x :: int
  shows "(x + k * msPerDay) div msPerDay = x div msPerDay + k"
    and "(x + k * msPerDay) mod msPerDay = x mod msPerDay"
  by (simp_all add: msPerDay_def)

lemma dayName_addDays:
  "dayName offset (addDays now (int d))
     = weekdayNames ! nat ((((now + offset) div msPerDay + 4) mod 7 + int d) mod 7)"
proof -
  have "addDays now (int d) + offset = (now + offset) + int d * msPerDay"
    by (simp add: addDays_def)
  then have "(addDays now (int d) + offset) div msPerDay = (now + offset) div msPerDay + int d"
    by (simp only: shift_days)
  then have "dayName offset (addDays now (int d))
      = weekdayNames ! nat (((now + offset) div msPerDay + int d + 4) mod 7)"
    by (simp only: dayName_def)
  also have "((now + offset) div msPerDay + int d + 4) mod 7
      = (((now + offset) div msPerDay + 4) mod 7 + int d) mod 7"
    by presburger
  finally show ?thesis .
qed

lemma setHours_addDays:
  "setHours offset (addDays now k) hour
     = (now + offset) - (now + offset) mod msPerDay + k * msPerDay + hour * msPerHour - offset"
proof -
  have e: "addDays now k + offset = (now + offset) + k * msPerDay"
    by (simp add: addDays_def)
  have "(addDays now k + offset) mod msPerDay = (now + offset) mod msPerDay"
    unfolding e by (rule shift_days)
  then show ?thesis unfolding setHours_def e by simp
qed

lemma find_append_case:
  "find P (xs @ ys) = (case find P xs of Some x \<Rightarrow> Some x | None \<Rightarrow> find P ys)"
  by (induction xs) auto

lemma scanHours_find:
  "scanHours offset checkDate now hours
     = find (\<lambda>t. now < t) (map (setHours offset checkDate) hours)"
  by (induction hours) (auto simp: Let_def)

lemma scanDays_find:
  "dayOffset \<le> 7 \<Longrightarrow>
   scanDays offset opt now dayOffset =
     find (\<lambda>t. now < t)
       (concat (map (\<lambda>d. if dayName offset (addDays now (int d)) \<in> set (bestDays opt)
                           then map (setHours offset (addDays now (int d))) (bestHours opt) else [])
                    [dayOffset..<7]))"
proof (induction offset opt now dayOffset rule: scanDays.induct)
  case (1 offset opt now dayOffset)
  show ?case
  proof (cases "dayOffset < 7")
    case False
    then show ?thesis by (simp add: scanDays.simps)
  next
    case True
    then have upt: "[dayOffset..<7] = dayOffset # [dayOffset + 1..<7]"
      by (simp add: upt_conv_Cons)
    show ?thesis
      using True 1
      by (subst scanDays.simps)
         (auto simp: upt Let_def find_append_case scanHours_find split: option.splits)
  qed
qed

lemma nextOptimalSlotAt_spec: "nextOptimalSlotAt offset opt now = spec_nextSlot offset opt now"
  by (simp add: nextOptimalSlotAt_def spec_nextSlot_def spec_candidates_def scanDays_find)

lemma getOptimalPostingTimes_cases:
  "getOptimalPostingTimes u p =
     (if p \<in> set objectPrototypeNames then None
      else Some (if p = ''linkedin'' then linkedinTimes else if p = ''twitter'' then twitterTimes
                 else if p = ''instagram'' then instagramTimes else facebookTimes))"
  by (simp add: getOptimalPostingTimes_def getProperty_def optimalTimes_def
      objectPrototypeNames_def)

lemma getOptimalPostingTimes_own:
  "p \<notin> set objectPrototypeNames \<Longrightarrow> \<exists>opt. getOptimalPostingTimes u p = Some opt"
  by (simp add: getOptimalPostingTimes_cases)

lemma bestHours_ascending:
  assumes "getOptimalPostingTimes u p = Some opt"
  shows "bestHours opt \<noteq> [] \<and> sorted (bestHours opt)"
proof -
  from assms have "opt = linkedinTimes \<or> opt = twitterTimes \<or> opt = instagramTimes
      \<or> opt = facebookTimes"
    by (simp add: getOptimalPostingTimes_cases split: if_splits)
  then show ?thesis
    by (auto simp: facebookTimes_def linkedinTimes_def twitterTimes_def instagramTimes_def)
qed

lemma getNextOptimalSlot_own:
  "getOptimalPostingTimes None platform = Some opt \<Longrightarrow>
   getNextOptimalSlot w st platform
     = (spec_nextSlot (localOffset w) opt (clock w (step st)), st\<lparr>step := Suc (step st)\<rparr>)"
  by (simp add: getNextOptimalSlot_def readClock_def nextOptimalSlotAt_spec)

lemma getNextOptimalSlot_inherited:
  "platform \<in> set objectPrototypeNames \<Longrightarrow>
   getNextOptimalSlot w st platform
     = (Inl (TypeError ''Cannot read properties of undefined''), st\<lparr>step := Suc (step st)\<rparr>)"
  by (simp add: getNextOptimalSlot_def readClock_def getOptimalPostingTimes_cases)

lemma tuesday_nine_from_wednesday:
  assumes "dayName offset now = ''Wednesday''"
  shows "nextOptimalSlotAt offset \<lparr>bestDays = [''Tuesday''], bestHours = [9], timezone = tz\<rparr> now
         = Inr ((now + offset) - (now + offset) mod msPerDay + 6 * msPerDay + 9 * msPerHour - offset)"
proof -
  have idx: "((now + offset) div msPerDay + 4) mod 7 = 3" using assms by (rule dayName_index)
  have m: "0 \<le> (now + offset) mod msPerDay" "(now + offset) mod msPerDay < msPerDay"
    by (simp_all add: msPerDay_def)
  have sh: "setHours offset (addDays now 6) 9
      = (now + offset) - (now + offset) mod msPerDay + 6 * msPerDay + 9 * msPerHour - offset"
    by (rule setHours_addDays)
  have gt: "now < (now + offset) - (now + offset) mod msPerDay + 6 * msPerDay + 9 * msPerHour - offset"
    using m by (simp add: msPerDay_def msPerHour_def)
  have up: "[0..<7] = [0,1,2,3,4,5,6]" by (simp add: upt_rec)
  show ?thesis
    using gt
    by (simp add: nextOptimalSlotAt_spec spec_nextSlot_def spec_candidates_def up
        dayName_addDays idx weekdayNames_def sh)
qed

lemma local_tuesday_nine:
  assumes "dayName offset now = ''Wednesday''"
    and "t = (now + offset) - (now + offset) mod msPerDay + 6 * msPerDay + 9 * msPerHour - offset"
  shows "now < t \<and> dayName offset t = ''Tuesday'' \<and> (t + offset) mod msPerDay = 9 * msPerHour
         \<and> (t + offset) div msPerDay = (now + offset) div msPerDay + 6"
proof -
  define n where "n = now + offset"
  have idx: "(n div msPerDay + 4) mod 7 = 3" using assms(1) unfolding n_def by (rule dayName_index)
  have m: "0 \<le> n mod msPerDay" "n mod msPerDay < msPerDay"
    by (simp_all add: msPerDay_def)
  have "n - n mod msPerDay = n div msPerDay * msPerDay"
    by (simp add: minus_mod_eq_div_mult)
  then have tl: "t + offset = 9 * msPerHour + (n div msPerDay + 6) * msPerDay"
    unfolding assms(2) n_def [symmetric] by (simp add: algebra_simps)
  have dv: "(t + offset) div msPerDay = n div msPerDay + 6"
    unfolding tl shift_days by (simp add: msPerDay_def msPerHour_def)
  have md: "(t + offset) mod msPerDay = 9 * msPerHour"
    unfolding tl shift_days by (simp add: msPerDay_def msPerHour_def)
  have "(n div msPerDay + 6 + 4) mod 7 = ((n div msPerDay + 4) mod 7 + 6) mod 7"
    by presburger
  then have "((t + offset) div msPerDay + 4) mod 7 = 2" unfolding dv idx by simp
  then have tue: "dayName offset t = ''Tuesday''"
    by (simp add: dayName_def weekdayNames_def)
  have gt: "now < t"
    unfolding assms(2) n_def [symmetric] using m by (simp add: msPerDay_def msPerHour_def n_def)
  show ?thesis using gt tue md dv by (simp add: n_def)
qed

text \<open>
  Claim C8, amended. For every single platform whose name is not a property name inherited
  from \<^verbatim>\<open>Object.prototype\<close>, the planner scans day offsets 0 to 6 from now; on each candidate
  date whose weekday is preferred it scans the preferred hours in ascending order and returns
  the first instant strictly after now; if there is none within 7 days it returns tomorrow at
  the first preferred hour. Weekdays and hours are read on the local clock of the process,
  whatever the \<^verbatim>\<open>timezone\<close> field of the table says: with preferred days {Tuesday}, hours {9}
  and now a Wednesday of the local calendar, it returns the following Tuesday at 09:00 local
  time, which is 09:00 in the reference time zone only when the process runs in it.

  The first conjunct equates the loops of the source with the specification's wording
  (\<open>spec_nextSlot\<close>, read at the offset of the process) and says the hours of the table are
  non-empty and ascending. The second is the example at every offset and for every value of
  the \<^verbatim>\<open>timezone\<close> field: the slot is after now, its local weekday is Tuesday, its local time
  of day is 09:00, and its local day is six days after the local day of now.
\<close>

theorem planner_first_slot_after_now:
  "(platform \<notin> set objectPrototypeNames \<longrightarrow>
      (\<exists>opt. getOptimalPostingTimes None platform = Some opt
         \<and> bestHours opt \<noteq> [] \<and> sorted (bestHours opt)
         \<and> getNextOptimalSlot w st platform
             = (spec_nextSlot (localOffset w) opt (clock w (step st)),
                st\<lparr>step := Suc (step st)\<rparr>)))
   \<and> (dayName offset now = ''Wednesday'' \<longrightarrow>
        (\<exists>t. nextOptimalSlotAt offset
                \<lparr>bestDays = [''Tuesday''], bestHours = [9], timezone = tz\<rparr> now = Inr t
           \<and> now < t
           \<and> dayName offset t = ''Tuesday''
           \<and> (t + offset) mod msPerDay = 9 * msPerHour
           \<and> (t + offset) div msPerDay = (now + offset) div msPerDay + 6))"
proof (intro conjI impI)
  assume "platform \<notin> set objectPrototypeNames"
  then obtain opt where opt: "getOptimalPostingTimes None platform = Some opt"
    using getOptimalPostingTimes_own by blast
  then show "\<exists>opt. getOptimalPostingTimes None platform = Some opt
         \<and> bestHours opt \<noteq> [] \<and> sorted (bestHours opt)
         \<and> getNextOptimalSlot w st platform
             = (spec_nextSlot (localOffset w) opt (clock w (step st)),
                st\<lparr>step := Suc (step st)\<rparr>)"
    using bestHours_ascending [OF opt] getNextOptimalSlot_own [OF opt, of w st] by blast
next
  assume wed: "dayName offset now = ''Wednesday''"
  define t where
    "t = (now + offset) - (now + offset) mod msPerDay + 6 * msPerDay + 9 * msPerHour - offset"
  have "nextOptimalSlotAt offset
          \<lparr>bestDays = [''Tuesday''], bestHours = [9], timezone = tz\<rparr> now = Inr t"
    unfolding t_def using wed by (rule tuesday_nine_from_wednesday)
  then show "\<exists>t. nextOptimalSlotAt offset
                \<lparr>bestDays = [''Tuesday''], bestHours = [9], timezone = tz\<rparr> now = Inr t
           \<and> now < t
           \<and> dayName offset t = ''Tuesday''
           \<and> (t + offset) mod msPerDay = 9 * msPerHour
           \<and> (t + offset) div msPerDay = (now + offset) div msPerDay + 6"
    using local_tuesday_nine [OF wed t_def] by blast
qed

text \<open>
  In a process running in UTC on Wednesday 7 January 1970 at 10:00 UTC: the next slot for
  Twitter is 12:00 of that day, and the slot of the example is Tuesday 13 January, 09:00.
\<close>

theorem planner_first_slot_after_now_witness:
  "''twitter'' \<notin> set objectPrototypeNames
   \<and> fst (getNextOptimalSlot exWorld (exStore [] []) ''twitter'') = Inr 561600000
   \<and> toISOString 561600000 = ''1970-01-07T12:00:00.000Z''
   \<and> dayName 0 554400000 = ''Wednesday''
   \<and> nextOptimalSlotAt 0 \<lparr>bestDays = [''Tuesday''], bestHours = [9], timezone = ''UTC''\<rparr>
        554400000 = Inr 1069200000
   \<and> toISOString 1069200000 = ''1970-01-13T09:00:00.000Z''"
proof -
  have own: "''twitter'' \<notin> set objectPrototypeNames" by code_simp
  have wed: "dayName 0 554400000 = ''Wednesday''" by code_simp
  have iso: "toISOString 561600000 = ''1970-01-07T12:00:00.000Z''"
    "toISOString 1069200000 = ''1970-01-13T09:00:00.000Z''" by code_simp+
  have tw: "getOptimalPostingTimes None ''twitter'' = Some twitterTimes" by code_simp
  have sp: "spec_nextSlot (localOffset exWorld) twitterTimes (clock exWorld (step (exStore [] [])))
      = Inr 561600000" by code_simp
  from planner_first_slot_after_now [of "''twitter''" exWorld "exStore [] []" 0 554400000 "''UTC''"]
    own wed
  obtain opt t where r: "getOptimalPostingTimes None ''twitter'' = Some opt"
      "getNextOptimalSlot exWorld (exStore [] []) ''twitter''
         = (spec_nextSlot (localOffset exWorld) opt (clock exWorld (step (exStore [] []))),
            (exStore [] [])\<lparr>step := Suc (step (exStore [] []))\<rparr>)"
      "nextOptimalSlotAt 0 \<lparr>bestDays = [''Tuesday''], bestHours = [9], timezone = ''UTC''\<rparr>
         554400000 = Inr t"
      "(t + 0) mod msPerDay = 9 * msPerHour"
      "(t + 0) div msPerDay = (554400000 + 0) div msPerDay + 6"
    by blast
  from r(1) tw have "opt = twitterTimes" by simp
  with r(2) sp have a: "fst (getNextOptimalSlot exWorld (exStore [] []) ''twitter'') = Inr 561600000"
    by simp
  have "t = t div msPerDay * msPerDay + t mod msPerDay" by simp
  with r(4,5) have "t = 1069200000" by (simp add: msPerDay_def msPerHour_def)
  with r(3) have b: "nextOptimalSlotAt 0
      \<lparr>bestDays = [''Tuesday''], bestHours = [9], timezone = ''UTC''\<rparr> 554400000 = Inr 1069200000"
    by simp
  from own a iso(1) wed b iso(2) show ?thesis by (intro conjI)
qed

text \<open>
  Claim C8 as worded fails twice. For the platform name \<^verbatim>\<open>constructor\<close> the planner throws.
  And in a process one hour ahead of UTC, at an instant that is a Wednesday in both time
  zones, the slot of the example is Tuesday at 08:00 of the reference time zone, UTC.
\<close>

theorem planner_throws_and_reads_local_time:
  "fst (getNextOptimalSlot exWorld (exStore [] []) ''constructor'')
     = Inl (TypeError ''Cannot read properties of undefined'')
   \<and> dayName 0 554400000 = ''Wednesday''
   \<and> dayName 3600000 554400000 = ''Wednesday''
   \<and> nextOptimalSlotAt 3600000 \<lparr>bestDays = [''Tuesday''], bestHours = [9], timezone = ''UTC''\<rparr>
        554400000 = Inr 1065600000
   \<and> toISOString 554400000 = ''1970-01-07T10:00:00.000Z''
   \<and> toISOString 1065600000 = ''1970-01-13T08:00:00.000Z''"
  by code_simp

subsection \<open>The optimal-time planner for a list of platforms\<close>

lemma nextOptimalSlotAt_total:
  "bestHours opt \<noteq> [] \<Longrightarrow> \<exists>t. nextOptimalSlotAt offset opt now = Inr t"
  by (auto simp: nextOptimalSlotAt_def split: option.splits list.splits)

lemma slotsFor_returns:
  assumes "\<forall>p\<in>set platforms. p \<notin> set objectPrototypeNames"
  shows "\<exists>slots. slotsFor w st platforms = (Inr slots, st\<lparr>step := step st + length platforms\<rparr>)
     \<and> map s_platform slots = platforms
     \<and> (\<forall>i<length platforms.
          \<exists>opt. getOptimalPostingTimes None (platforms ! i) = Some opt
            \<and> nextOptimalSlotAt (localOffset w) opt (clock w (step st + i))
                = Inr (s_time (slots ! i)))"
  using assms
proof (induction platforms arbitrary: st)
  case Nil
  show ?case by simp
next
  case (Cons p ps)
  from Cons.prems obtain opt where opt: "getOptimalPostingTimes None p = Some opt"
    using getOptimalPostingTimes_own [of p None] by auto
  obtain t where t: "nextOptimalSlotAt (localOffset w) opt (clock w (step st)) = Inr t"
    using nextOptimalSlotAt_total bestHours_ascending [OF opt] by blast
  let ?st1 = "st\<lparr>step := Suc (step st)\<rparr>"
  from Cons.prems have "\<forall>p\<in>set ps. p \<notin> set objectPrototypeNames" by simp
  from Cons.IH [OF this, of ?st1]
  obtain rest where rest: "slotsFor w ?st1 ps = (Inr rest, ?st1\<lparr>step := step ?st1 + length ps\<rparr>)"
      "map s_platform rest = ps"
      "\<forall>i<length ps. \<exists>opt. getOptimalPostingTimes None (ps ! i) = Some opt
            \<and> nextOptimalSlotAt (localOffset w) opt (clock w (step ?st1 + i))
                = Inr (s_time (rest ! i))"
    by blast
  have run: "slotsFor w st (p # ps)
      = (Inr (\<lparr>s_platform = p, s_time = t\<rparr> # rest), st\<lparr>step := step st + length (p # ps)\<rparr>)"
    using t opt rest(1) by (simp add: getNextOptimalSlot_def readClock_def)
  have each: "\<forall>i<length (p # ps).
          \<exists>opt. getOptimalPostingTimes None ((p # ps) ! i) = Some opt
            \<and> nextOptimalSlotAt (localOffset w) opt (clock w (step st + i))
                = Inr (s_time ((\<lparr>s_platform = p, s_time = t\<rparr> # rest) ! i))"
  proof (intro allI impI)
    fix i assume "i < length (p # ps)"
    then show "\<exists>opt. getOptimalPostingTimes None ((p # ps) ! i) = Some opt
            \<and> nextOptimalSlotAt (localOffset w) opt (clock w (step st + i))
                = Inr (s_time ((\<lparr>s_platform = p, s_time = t\<rparr> # rest) ! i))"
      using t opt rest(3) by (cases i) auto
  qed
  show ?case using run rest(2) each by auto
qed

lemma Min_insert_pair:
  fixes a b :: int
  assumes "finite S"
  shows "Min (insert a (insert b S)) = Min (insert (min a b) S)"
proof (cases "S = {}")
  case True
  then show ?thesis by (simp add: min.commute)
next
  case False
  then show ?thesis using assms by (simp add: min.assoc)
qed

lemma foldl_earliest:
  "s_time (foldl (\<lambda>earliest current. if s_time current < s_time earliest then current else earliest) a xs)
     = Min (insert (s_time a) (s_time ` set xs))"
proof (induction xs arbitrary: a)
  case Nil
  show ?case by simp
next
  case (Cons x xs)
  have "s_time (if s_time x < s_time a then x else a) = min (s_time a) (s_time x)"
    by (simp add: min_def)
  then show ?case
    by (simp add: Cons.IH Min_insert_pair del: Min_insert)
qed

lemma earliestOf_min:
  "slots \<noteq> [] \<Longrightarrow> \<exists>e. earliestOf slots = Inr e \<and> s_time e = Min (s_time ` set slots)"
  by (cases slots) (simp_all add: earliestOf_def foldl_earliest del: foldl_Cons Min_insert)

lemma posts_setScheduled:
  "posts (setScheduled w st t ident) =
     map (\<lambda>r. if p_id r = ident
               then r\<lparr>p_scheduled_at := SqlText (toISOString t), p_status := ''scheduled'',
                      p_updated_at := Some (clock w (step st))\<rparr>
               else r) (posts st)"
  by (simp add: setScheduled_def)

lemma setScheduled_rows:
  assumes "r \<in> set (posts (setScheduled w st t ident))" "p_id r = ident"
  shows "p_scheduled_at r = SqlText (toISOString t) \<and> p_status r = ''scheduled''"
proof -
  from assms(1) obtain x where x: "x \<in> set (posts st)"
    "r = (if p_id x = ident
               then x\<lparr>p_scheduled_at := SqlText (toISOString t), p_status := ''scheduled'',
                      p_updated_at := Some (clock w (step st))\<rparr>
               else x)"
    unfolding posts_setScheduled set_map by blast
  show ?thesis
  proof (cases "p_id x = ident")
    case True
    with x(2) show ?thesis by simp
  next
    case False
    with x(2) assms(2) show ?thesis by simp
  qed
qed

text \<open>
  Claim C7, amended. When the planner is invoked for a non-empty list of target platforms,
  none of them a property name inherited from \<^verbatim>\<open>Object.prototype\<close>, the \<^verbatim>\<open>scheduled_at\<close> it
  writes is the ISO text of the minimum of the per-platform earliest slots, each computed
  independently (platform number i from its own reading of the clock), and the post's status
  is set to \<^verbatim>\<open>scheduled\<close>.
\<close>

theorem scheduleForOptimalTime_writes_earliest:
  assumes "platforms \<noteq> []" and "\<forall>p\<in>set platforms. p \<notin> set objectPrototypeNames"
  shows "\<exists>slots st1.
           slotsFor w st platforms = (Inr slots, st1)
         \<and> map s_platform slots = platforms
         \<and> (\<forall>i<length platforms.
              \<exists>opt. getOptimalPostingTimes None (platforms ! i) = Some opt
                \<and> nextOptimalSlotAt (localOffset w) opt (clock w (step st + i))
                    = Inr (s_time (slots ! i)))
         \<and> scheduleForOptimalTime w st ident platforms
             = (Inr \<lparr>scheduledAt = Min (s_time ` set slots), recommendations = slots\<rparr>,
                setScheduled w st1 (Min (s_time ` set slots)) ident)
         \<and> (\<forall>r\<in>set (posts (snd (scheduleForOptimalTime w st ident platforms))).
              p_id r = ident \<longrightarrow>
              p_scheduled_at r = SqlText (toISOString (Min (s_time ` set slots)))
              \<and> p_status r = ''scheduled'')"
proof -
  obtain slots where s: "slotsFor w st platforms = (Inr slots, st\<lparr>step := step st + length platforms\<rparr>)"
     "map s_platform slots = platforms"
     "\<forall>i<length platforms.
          \<exists>opt. getOptimalPostingTimes None (platforms ! i) = Some opt
            \<and> nextOptimalSlotAt (localOffset w) opt (clock w (step st + i))
                = Inr (s_time (slots ! i))"
    using slotsFor_returns [OF assms(2)] by blast
  from s(2) assms(1) have ne: "slots \<noteq> []" by auto
  then obtain e where e: "earliestOf slots = Inr e" "s_time e = Min (s_time ` set slots)"
    using earliestOf_min by blast
  have run: "scheduleForOptimalTime w st ident platforms
             = (Inr \<lparr>scheduledAt = Min (s_time ` set slots), recommendations = slots\<rparr>,
                setScheduled w (st\<lparr>step := step st + length platforms\<rparr>) (Min (s_time ` set slots)) ident)"
    using s(1) e by (simp add: scheduleForOptimalTime_def)
  have rows: "\<forall>r\<in>set (posts (snd (scheduleForOptimalTime w st ident platforms))).
              p_id r = ident \<longrightarrow>
              p_scheduled_at r = SqlText (toISOString (Min (s_time ` set slots)))
              \<and> p_status r = ''scheduled''"
    using setScheduled_rows by (auto simp: run)
  show ?thesis using s run rows by blast
qed

text \<open>
  Twitter and Instagram on Wednesday at 10:00: Twitter's next slot is 12:00, Instagram's is
  11:00, and 11:00 is written.
\<close>

theorem scheduleForOptimalTime_writes_earliest_witness:
  "[''twitter'', ''instagram''] \<noteq> []
   \<and> list_all (\<lambda>p. p \<notin> set objectPrototypeNames) [''twitter'', ''instagram'']
   \<and> (\<exists>slots.
         fst (scheduleForOptimalTime exWorld (exStore [] [exPost 1 ''draft'' None NoText]) 1
                [''twitter'', ''instagram''])
           = Inr \<lparr>scheduledAt = Min (s_time ` set slots), recommendations = slots\<rparr>)
   \<and> fst (scheduleForOptimalTime exWorld (exStore [] [exPost 1 ''draft'' None NoText]) 1
            [''twitter'', ''instagram''])
       = Inr \<lparr>scheduledAt = 558000000,
              recommendations = [\<lparr>s_platform = ''twitter'', s_time = 561600000\<rparr>,
                                 \<lparr>s_platform = ''instagram'', s_time = 558000000\<rparr>]\<rparr>
   \<and> map (\<lambda>r. (p_status r, p_scheduled_at r))
         (posts (snd (scheduleForOptimalTime exWorld (exStore [] [exPost 1 ''draft'' None NoText]) 1
                        [''twitter'', ''instagram''])))
       = [(''scheduled'', SqlText ''1970-01-07T11:00:00.000Z'')]"
proof -
  have ne: "[''twitter'', ''instagram''] \<noteq> []" by simp
  have own: "list_all (\<lambda>p. p \<notin> set objectPrototypeNames) [''twitter'', ''instagram'']"
    by code_simp
  then have own': "\<forall>p\<in>set [''twitter'', ''instagram'']. p \<notin> set objectPrototypeNames"
    unfolding list_all_iff .
  have ex: "\<exists>slots.
         fst (scheduleForOptimalTime exWorld (exStore [] [exPost 1 ''draft'' None NoText]) 1
                [''twitter'', ''instagram''])
           = Inr \<lparr>scheduledAt = Min (s_time ` set slots), recommendations = slots\<rparr>"
    using scheduleForOptimalTime_writes_earliest [OF ne own', of exWorld
        "exStore [] [exPost 1 ''draft'' None NoText]" 1]
    by auto
  have run: "fst (scheduleForOptimalTime exWorld (exStore [] [exPost 1 ''draft'' None NoText]) 1
            [''twitter'', ''instagram''])
       = Inr \<lparr>scheduledAt = 558000000,
              recommendations = [\<lparr>s_platform = ''twitter'', s_time = 561600000\<rparr>,
                                 \<lparr>s_platform = ''instagram'', s_time = 558000000\<rparr>]\<rparr>"
    by code_simp
  have rows: "map (\<lambda>r. (p_status r, p_scheduled_at r))
         (posts (snd (scheduleForOptimalTime exWorld (exStore [] [exPost 1 ''draft'' None NoText]) 1
                        [''twitter'', ''instagram''])))
       = [(''scheduled'', SqlText ''1970-01-07T11:00:00.000Z'')]"
    by code_simp
  from ne own ex run rows show ?thesis by (intro conjI)
qed

text \<open>
  Claim C7 as worded fails: for the non-empty list that holds the platform name
  \<^verbatim>\<open>constructor\<close> the planner throws, and the post keeps its status and has no
  \<^verbatim>\<open>scheduled_at\<close>.
\<close>

theorem scheduleForOptimalTime_throws_for_inherited_name:
  "[''constructor''] \<noteq> []
   \<and> fst (scheduleForOptimalTime exWorld (exStore [] [exPost 1 ''draft'' None NoText]) 1
            [''constructor''])
       = Inl (TypeError ''Cannot read properties of undefined'')
   \<and> map (\<lambda>r. (p_status r, p_scheduled_at r))
         (posts (snd (scheduleForOptimalTime exWorld (exStore [] [exPost 1 ''draft'' None NoText]) 1
                        [''constructor''])))
       = [(''draft'', SqlNull)]"
  by code_simp

subsection \<open>The dispatcher\<close>

lemma readClock_tables:
  "readClock w st = (t, st1) \<Longrightarrow>
   users st1 = users st \<and> social_accounts st1 = social_accounts st \<and> posts st1 = posts st
   \<and> platform_posts st1 = platform_posts st"
  by (auto simp: readClock_def)

lemma axiosPost_tables:
  "axiosPost w st = (reply, st1) \<Longrightarrow>
   users st1 = users st \<and> social_accounts st1 = social_accounts st \<and> posts st1 = posts st
   \<and> platform_posts st1 = platform_posts st"
  by (auto simp: axiosPost_def)

lemma demoResult_tables:
  "demoResult prefix w st = (res, st1) \<Longrightarrow>
   users st1 = users st \<and> social_accounts st1 = social_accounts st \<and> posts st1 = posts st
   \<and> platform_posts st1 = platform_posts st"
  by (auto simp: demoResult_def readClock_def)

lemma postRemote_tables:
  "postRemote w st = (res, st1) \<Longrightarrow>
   users st1 = users st \<and> social_accounts st1 = social_accounts st \<and> posts st1 = posts st
   \<and> platform_posts st1 = platform_posts st"
  by (auto simp: postRemote_def axiosPost_def split: http_reply.splits)

lemma client_cases:
  "getProperty platformClients key = Own client \<Longrightarrow>
   client = facebookPost \<or> client = linkedinPost \<or> client = twitterPost \<or> client = instagramPost"
  by (auto simp: getProperty_def platformClients_def split: if_splits)

lemma client_tables:
  assumes "getProperty platformClients key = Own client"
    and "client w st account content mediaUrls = (res, st1)"
  shows "users st1 = users st \<and> social_accounts st1 = social_accounts st \<and> posts st1 = posts st
   \<and> platform_posts st1 = platform_posts st"
proof -
  from client_cases [OF assms(1)] consider
    "client = facebookPost" | "client = linkedinPost" | "client = twitterPost" | "client = instagramPost"
    by blast
  then show ?thesis
  proof cases
    case 1
    with assms(2) show ?thesis
      by (auto simp: facebookPost_def split: if_splits dest: postRemote_tables demoResult_tables)
  next
    case 2
    with assms(2) show ?thesis
      by (auto simp: linkedinPost_def split: if_splits dest: postRemote_tables demoResult_tables)
  next
    case 3
    with assms(2) show ?thesis
      by (auto simp: twitterPost_def split: if_splits dest: postRemote_tables demoResult_tables)
  next
    case 4
    with assms(2) show ?thesis
      by (auto simp: instagramPost_def axiosPost_def split: if_splits http_reply.splits
          dest!: postRemote_tables demoResult_tables)
  qed
qed

lemma failPlatformPost_tables:
  "failPlatformPost st msg ident platform = Inr st1 \<Longrightarrow>
   users st1 = users st \<and> social_accounts st1 = social_accounts st \<and> posts st1 = posts st"
  by (auto simp: failPlatformPost_def split: option.splits json_elem.splits)

lemma publishPlatformPost_tables:
  "publishPlatformPost w st ext ident platform = Inr st1 \<Longrightarrow>
   users st1 = users st \<and> social_accounts st1 = social_accounts st \<and> posts st1 = posts st"
  by (auto simp: publishPlatformPost_def split: option.splits json_elem.splits)

lemma attemptPlatform_tables:
  assumes "attemptPlatform w post userId mediaUrls platform rs st = (thrown, rs1, st1)"
  shows "users st1 = users st \<and> social_accounts st1 = social_accounts st \<and> posts st1 = posts st"
proof (cases "findActiveAccount st userId platform")
  case None
  with assms show ?thesis
    by (auto simp: attemptPlatform_def Let_def split: sum.splits dest: failPlatformPost_tables)
next
  case (Some account)
  show ?thesis
  proof (cases "getProperty platformClients (propertyKey platform)")
    case Missing
    with Some assms show ?thesis by (auto simp: attemptPlatform_def)
  next
    case Inherited
    with Some assms show ?thesis by (auto simp: attemptPlatform_def)
  next
    case client: (Own client)
    obtain r st2 where run: "client w st account (platformContent st post platform) mediaUrls = (r, st2)"
      by (cases "client w st account (platformContent st post platform) mediaUrls")
    from client_tables [OF client run]
    have t: "users st2 = users st" "social_accounts st2 = social_accounts st" "posts st2 = posts st"
      by simp_all
    show ?thesis
    proof (cases r)
      case (Inl e)
      with assms Some client run t show ?thesis by (simp add: attemptPlatform_def)
    next
      case (Inr result)
      with assms Some client run t show ?thesis
        by (auto simp: attemptPlatform_def Let_def split: if_splits sum.splits
            dest: failPlatformPost_tables publishPlatformPost_tables)
    qed
  qed
qed

lemma publishToPlatform_tables:
  assumes "publishToPlatform w post userId mediaUrls platform acc = (res, st1)"
  shows "users st1 = users (snd acc) \<and> social_accounts st1 = social_accounts (snd acc)
         \<and> posts st1 = posts (snd acc)"
proof -
  obtain thrown rs2 st2 where
    a: "attemptPlatform w post userId mediaUrls platform (fst acc) (snd acc) = (thrown, rs2, st2)"
    by (cases "attemptPlatform w post userId mediaUrls platform (fst acc) (snd acc)") auto
  note t = attemptPlatform_tables [OF a]
  show ?thesis
  proof (cases thrown)
    case None
    with a assms t show ?thesis by (simp add: publishToPlatform_def)
  next
    case (Some e)
    show ?thesis
    proof (cases "failPlatformPost st2 (message e) (p_id post) platform")
      case (Inl e2)
      with Some a assms t show ?thesis by (simp add: publishToPlatform_def)
    next
      case (Inr st3)
      with Some a assms t failPlatformPost_tables [OF Inr] show ?thesis
        by (simp add: publishToPlatform_def)
    qed
  qed
qed

lemma publishToAll_tables:
  "publishToAll w post userId mediaUrls elems acc = (res, st1) \<Longrightarrow>
   users st1 = users (snd acc) \<and> social_accounts st1 = social_accounts (snd acc)
   \<and> posts st1 = posts (snd acc)"
proof (induction elems arbitrary: acc)
  case Nil
  then show ?case by auto
next
  case (Cons p ps)
  obtain r2 st2 where s: "publishToPlatform w post userId mediaUrls p acc = (r2, st2)"
    by (cases "publishToPlatform w post userId mediaUrls p acc")
  note t = publishToPlatform_tables [OF s]
  show ?case
  proof (cases r2)
    case (Inl e)
    with Cons.prems s t show ?thesis by simp
  next
    case (Inr rs2)
    with Cons.prems s have "publishToAll w post userId mediaUrls ps (rs2, st2) = (res, st1)" by simp
    from Cons.IH [OF this] t show ?thesis by simp
  qed
qed

lemma publishPost_tables:
  assumes "publishPost w st post userId = (res, st1)"
  shows "users st1 = users st \<and> social_accounts st1 = social_accounts st \<and> posts st1 = posts st"
proof (cases "parseOrEmpty (p_platforms post)")
  case (Inl e)
  with assms show ?thesis by (simp add: publishPost_def)
next
  case platforms: (Inr platforms)
  show ?thesis
  proof (cases "parseOrEmpty (p_media_urls post)")
    case (Inl e)
    with platforms assms show ?thesis by (simp add: publishPost_def)
  next
    case media: (Inr mediaUrls)
    show ?thesis
    proof (cases "elements platforms")
      case (Inl e)
      with platforms media assms show ?thesis by (simp add: publishPost_def)
    next
      case (Inr elems)
      with platforms media assms
      have "publishToAll w post userId mediaUrls elems ([], st) = (res, st1)"
        by (simp add: publishPost_def)
      from publishToAll_tables [OF this] show ?thesis by simp
    qed
  qed
qed

lemma failPlatformPost_bound:
  "\<exists>st1. failPlatformPost st (Some m) ident (Str p) = Inr st1"
  by (simp add: failPlatformPost_def)

lemma publishPlatformPost_bound:
  "\<exists>st1. publishPlatformPost w st (Some i) ident (Str p) = Inr st1"
  by (simp add: publishPlatformPost_def)

lemma demoResult_usable:
  "demoResult prefix w st = (res, st1) \<Longrightarrow> \<exists>r. res = Inr r \<and> postId r \<noteq> None"
  by (auto simp: demoResult_def readClock_def)

lemma postRemote_usable:
  assumes "\<forall>n. usableReply (http w n)" and "postRemote w st = (res, st1)"
  shows "(\<forall>e. res = Inl e \<longrightarrow> message e \<noteq> None)
       \<and> (\<forall>r. res = Inr r \<longrightarrow> success r \<longrightarrow> postId r \<noteq> None)"
proof -
  from assms(1) have u: "usableReply (http w (step st))" by blast
  show ?thesis
  proof (cases "http w (step st)")
    case (Response i)
    with u assms(2) show ?thesis
      by (auto simp: postRemote_def axiosPost_def usableReply_def remoteResult_def)
  next
    case (Rejected e)
    with u assms(2) show ?thesis
      by (auto simp: postRemote_def axiosPost_def usableReply_def)
  qed
qed

lemma client_usable:
  assumes "getProperty platformClients key = Own client"
    and u: "\<forall>n. usableReply (http w n)"
    and run: "client w st account content mediaUrls = (res, st1)"
  shows "(\<forall>e. res = Inl e \<longrightarrow> message e \<noteq> None)
       \<and> (\<forall>r. res = Inr r \<longrightarrow> success r \<longrightarrow> postId r \<noteq> None)"
proof -
  from client_cases [OF assms(1)] consider
    "client = facebookPost" | "client = linkedinPost" | "client = twitterPost" | "client = instagramPost"
    by blast
  then show ?thesis
  proof cases
    case 1
    with run show ?thesis
      using postRemote_usable [OF u, of st res st1] demoResult_usable [of "''fb_demo_''" w st res st1]
      by (auto simp: facebookPost_def split: if_splits)
  next
    case 2
    with run show ?thesis
      using postRemote_usable [OF u, of st res st1] demoResult_usable [of "''li_demo_''" w st res st1]
      by (auto simp: linkedinPost_def split: if_splits)
  next
    case 3
    with run show ?thesis
      using postRemote_usable [OF u, of st res st1] demoResult_usable [of "''tw_demo_''" w st res st1]
      by (auto simp: twitterPost_def split: if_splits)
  next
    case 4
    show ?thesis
    proof (cases "noMedia mediaUrls")
      case True
      with 4 run show ?thesis by (auto simp: instagramPost_def)
    next
      case False
      show ?thesis
      proof (cases "instagramAppId w \<and> a_access_token account \<noteq> Some ''demo-token''")
        case live: True
        from u have u0: "usableReply (http w (step st))" by blast
        show ?thesis
        proof (cases "http w (step st)")
          case (Rejected e)
          with u0 4 run False live show ?thesis
            by (auto simp: instagramPost_def axiosPost_def usableReply_def)
        next
          case (Response creation)
          with 4 run False live
          have "postRemote w (st\<lparr>step := Suc (step st)\<rparr>) = (res, st1)"
            by (auto simp: instagramPost_def axiosPost_def)
          from postRemote_usable [OF u this] show ?thesis .
        qed
      next
        case demo: False
        with 4 run False have "demoResult ''ig_demo_'' w st = (res, st1)"
          by (auto simp: instagramPost_def)
        from demoResult_usable [OF this] show ?thesis by auto
      qed
    qed
  qed
qed

lemma publishToPlatform_result:
  assumes u: "\<forall>n. usableReply (http w n)"
  shows "\<exists>r st1.
     publishToPlatform w post userId mediaUrls (Str p) acc = (Inr (setResult p r (fst acc)), st1)
     \<and> (findActiveAccount (snd acc) userId (Str p) = None \<longrightarrow>
          r = failed (''No connected '' @ p @ '' account found''))
     \<and> (\<forall>account. findActiveAccount (snd acc) userId (Str p) = Some account \<longrightarrow>
          getProperty platformClients p = Missing \<longrightarrow> r = failed (''Unsupported platform: '' @ p))
     \<and> (\<forall>account. findActiveAccount (snd acc) userId (Str p) = Some account \<longrightarrow>
          getProperty platformClients p = Inherited \<longrightarrow>
          r = caught (TypeError ''client.post is not a function''))
     \<and> (\<forall>account client e st2.
          findActiveAccount (snd acc) userId (Str p) = Some account \<longrightarrow>
          getProperty platformClients p = Own client \<longrightarrow>
          client w (snd acc) account (platformContent (snd acc) post (Str p)) mediaUrls = (Inl e, st2) \<longrightarrow>
          r = caught e)
     \<and> (\<forall>account client result st2.
          findActiveAccount (snd acc) userId (Str p) = Some account \<longrightarrow>
          getProperty platformClients p = Own client \<longrightarrow>
          client w (snd acc) account (platformContent (snd acc) post (Str p)) mediaUrls = (Inr result, st2) \<longrightarrow>
          r = result)"
proof (cases "findActiveAccount (snd acc) userId (Str p)")
  case None
  obtain st1 where "failPlatformPost (snd acc) (Some ''No connected account'') (p_id post) (Str p) = Inr st1"
    using failPlatformPost_bound by blast
  with None show ?thesis
    by (cases acc) (simp add: publishToPlatform_def attemptPlatform_def propertyKey_def)
next
  case (Some account)
  show ?thesis
  proof (cases "getProperty platformClients p")
    case Missing
    with Some show ?thesis
      by (cases acc) (simp add: publishToPlatform_def attemptPlatform_def propertyKey_def)
  next
    case Inherited
    obtain st1 where "failPlatformPost (snd acc) (Some ''client.post is not a function'')
        (p_id post) (Str p) = Inr st1"
      using failPlatformPost_bound by blast
    with Some Inherited show ?thesis
      by (cases acc) (simp add: publishToPlatform_def attemptPlatform_def propertyKey_def)
  next
    case client: (Own client)
    obtain res st2 where run:
      "client w (snd acc) account (platformContent (snd acc) post (Str p)) mediaUrls = (res, st2)"
      by (cases "client w (snd acc) account (platformContent (snd acc) post (Str p)) mediaUrls")
    note good = client_usable [OF client u run]
    show ?thesis
    proof (cases res)
      case (Inl e)
      with good obtain m where m: "message e = Some m" by auto
      obtain st3 where "failPlatformPost st2 (Some m) (p_id post) (Str p) = Inr st3"
        using failPlatformPost_bound by blast
      with Some client run Inl m show ?thesis
        by (cases acc) (simp add: publishToPlatform_def attemptPlatform_def propertyKey_def)
    next
      case (Inr result)
      show ?thesis
      proof (cases "success result")
        case True
        with good Inr obtain i where i: "postId result = Some i" by auto
        obtain st3 where "publishPlatformPost w st2 (Some i) (p_id post) (Str p) = Inr st3"
          using publishPlatformPost_bound by blast
        with Some client run Inr True i show ?thesis
          by (cases acc) (simp add: publishToPlatform_def attemptPlatform_def propertyKey_def)
      next
        case False
        obtain st3 where "failPlatformPost st2 (Some (errorOrUnknown result)) (p_id post) (Str p) = Inr st3"
          using failPlatformPost_bound by blast
        with Some client run Inr False show ?thesis
          by (cases acc) (simp add: publishToPlatform_def attemptPlatform_def propertyKey_def)
      qed
    qed
  qed
qed

lemma publishToPlatform_updates:
  assumes "\<forall>n. usableReply (http w n)"
  shows "\<exists>r st1. publishToPlatform w post userId mediaUrls (Str p) acc
                   = (Inr (setResult p r (fst acc)), st1)"
proof -
  from publishToPlatform_result [OF assms, of post userId mediaUrls p acc]
  obtain r st1 where
    "publishToPlatform w post userId mediaUrls (Str p) acc = (Inr (setResult p r (fst acc)), st1)"
    by (elim exE conjE)
  then show ?thesis by (intro exI)
qed

lemma setResult_keys:
  "fst ` set (setResult p r rs) = fst ` set rs \<union> (if p = ''__proto__'' then {} else {p})"
  by (simp add: setResult_def AList.dom_update)

lemma setResult_other: "q \<noteq> p \<Longrightarrow> map_of (setResult p r rs) q = map_of rs q"
  by (simp add: setResult_def AList.update_conv')

lemma setResult_same: "p \<noteq> ''__proto__'' \<Longrightarrow> map_of (setResult p r rs) p = Some r"
  by (simp add: setResult_def AList.update_conv')

lemma publishToAll_keys:
  assumes u: "\<forall>n. usableReply (http w n)"
  shows "\<exists>rs st1. publishToAll w post userId mediaUrls (map Str names) acc = (Inr rs, st1)
           \<and> fst ` set rs = fst ` set (fst acc) \<union> (set names - {''__proto__''})"
proof (induction names arbitrary: acc)
  case Nil
  show ?case by simp
next
  case (Cons p ps)
  obtain r st2 where r: "publishToPlatform w post userId mediaUrls (Str p) acc
      = (Inr (setResult p r (fst acc)), st2)"
    using publishToPlatform_updates [OF u] by blast
  obtain rs st1 where rest:
    "publishToAll w post userId mediaUrls (map Str ps) (setResult p r (fst acc), st2) = (Inr rs, st1)"
    "fst ` set rs = fst ` set (fst (setResult p r (fst acc), st2)) \<union> (set ps - {''__proto__''})"
    using Cons.IH [of "(setResult p r (fst acc), st2)"] by blast
  have "publishToAll w post userId mediaUrls (map Str (p # ps)) acc = (Inr rs, st1)"
    using r rest(1) by simp
  moreover have "fst ` set rs = fst ` set (fst acc) \<union> (set (p # ps) - {''__proto__''})"
    using rest(2) by (auto simp: setResult_keys split: if_splits)
  ultimately show ?case by blast
qed

lemma publishToAll_fixed:
  assumes u: "\<forall>n. usableReply (http w n)"
    and fixed: "\<And>acc. social_accounts (snd acc) = accounts \<Longrightarrow>
            \<exists>st1. publishToPlatform w post userId mediaUrls (Str p) acc
                    = (Inr (setResult p r0 (fst acc)), st1)"
    and "p \<noteq> ''__proto__''"
    and "social_accounts (snd acc) = accounts"
    and "p \<in> set names \<or> map_of (fst acc) p = Some r0"
    and "publishToAll w post userId mediaUrls (map Str names) acc = (Inr rs, st1)"
  shows "map_of rs p = Some r0"
  using assms(4,5,6)
proof (induction names arbitrary: acc)
  case Nil
  then show ?case by auto
next
  case (Cons q qs)
  obtain r st2 where r: "publishToPlatform w post userId mediaUrls (Str q) acc
      = (Inr (setResult q r (fst acc)), st2)"
    using publishToPlatform_updates [OF u] by blast
  let ?acc1 = "(setResult q r (fst acc), st2)"
  have acc1: "social_accounts (snd ?acc1) = accounts"
    using publishToPlatform_tables [OF r] Cons.prems(1) by simp
  have keep: "p \<in> set qs \<or> map_of (fst ?acc1) p = Some r0"
  proof (cases "q = p")
    case True
    from fixed [OF Cons.prems(1)] r True have "setResult p r (fst acc) = setResult p r0 (fst acc)"
      by auto
    with True assms(3) show ?thesis by (simp add: setResult_same)
  next
    case False
    with Cons.prems(2) show ?thesis by (auto simp: setResult_other)
  qed
  have "publishToAll w post userId mediaUrls (map Str qs) ?acc1 = (Inr rs, st1)"
    using Cons.prems(3) r by simp
  from Cons.IH [OF acc1 keep this] show ?case .
qed

lemma publishPost_returns:
  assumes "parseOrEmpty (p_platforms post) = Inr (JArray names)"
    and "parseOrEmpty (p_media_urls post) = Inr mediaUrls"
  shows "publishPost w st post userId = publishToAll w post userId mediaUrls (map Str names) ([], st)"
  using assms by (simp add: publishPost_def elements_def)

lemma instagram_refuses:
  assumes "noMedia mediaUrls"
  shows "instagramPost w st account content mediaUrls =
     (Inr \<lparr>success = False, postId = None,
              error = Some ''Instagram requires at least one image'',
              skipped = True, demo = False\<rparr>, st)"
  using assms by (simp add: instagramPost_def)

lemma instagram_without_media:
  assumes "findActiveAccount st userId (Str ''instagram'') = Some account" and "noMedia mediaUrls"
    and "social_accounts (snd acc) = social_accounts st"
  shows "\<exists>st1. publishToPlatform w post userId mediaUrls (Str ''instagram'') acc
         = (Inr (setResult ''instagram''
             \<lparr>success = False, postId = None,
              error = Some ''Instagram requires at least one image'',
              skipped = True, demo = False\<rparr> (fst acc)), st1)"
proof -
  have a: "findActiveAccount (snd acc) userId (Str ''instagram'') = Some account"
    using assms(1,3) by (simp add: findActiveAccount_def)
  have c: "getProperty platformClients ''instagram'' = Own instagramPost"
    by (simp add: getProperty_def platformClients_def)
  obtain st3 where "failPlatformPost (snd acc) (Some ''Instagram requires at least one image'')
      (p_id post) (Str ''instagram'') = Inr st3"
    using failPlatformPost_bound by blast
  then show ?thesis
    using a c assms(2)
    by (cases acc)
       (simp add: publishToPlatform_def attemptPlatform_def instagram_refuses propertyKey_def
          errorOrUnknown_def)
qed

lemma no_account_recorded:
  assumes "findActiveAccount st userId (Str p) = None"
    and "social_accounts (snd acc) = social_accounts st"
  shows "\<exists>st1. publishToPlatform w post userId mediaUrls (Str p) acc
         = (Inr (setResult p (failed (''No connected '' @ p @ '' account found'')) (fst acc)), st1)"
proof -
  have "findActiveAccount (snd acc) userId (Str p) = None"
    using assms by (simp add: findActiveAccount_def)
  moreover obtain st1 where
    "failPlatformPost (snd acc) (Some ''No connected account'') (p_id post) (Str p) = Inr st1"
    using failPlatformPost_bound by blast
  ultimately show ?thesis
    by (cases acc) (simp add: publishToPlatform_def attemptPlatform_def propertyKey_def)
qed

text \<open>
  Claim C5, amended. Let the target list of a post be a list of platform names (strings)
  other than \<^verbatim>\<open>__proto__\<close>, and let every remote request that resolves carry a post
  identifier and every one that fails carry an error object with a message. Then for every
  platform in the list, a failure of that platform's attempt (no active connected account,
  an error raised by the adapter, or a precondition the platform refuses) becomes a failed
  result recorded for that platform only; it never leaves \<^verbatim>\<open>publishPost\<close> as a raised error
  and never keeps the remaining platforms from being attempted.

  Read with \<open>names\<close> the parsed target list: \<^verbatim>\<open>publishPost\<close> returns (it does not raise),
  its results are those of the loop over all of \<open>names\<close> and have exactly the platforms of
  \<open>names\<close> as keys; a platform without an active account, and Instagram without media, hold
  a failed result at the end; and in every iteration, from every accumulated state, the
  iteration returns, changes the result of its own platform only, and records a raised error
  \<open>e\<close> as the failed result with the message of \<open>e\<close> and a returned result as it is.
\<close>

theorem publishPost_contains_platform_failures:
  assumes "parseOrEmpty (p_platforms post) = Inr (JArray names)"
    and "parseOrEmpty (p_media_urls post) = Inr mediaUrls"
    and "\<forall>n. usableReply (http w n)"
    and "''__proto__'' \<notin> set names"
  shows "\<exists>rs st1.
           publishPost w st post userId = (Inr rs, st1)
         \<and> publishToAll w post userId mediaUrls (map Str names) ([], st) = (Inr rs, st1)
         \<and> fst ` set rs = set names
         \<and> (\<forall>p\<in>set names. findActiveAccount st userId (Str p) = None \<longrightarrow>
               map_of rs p = Some (failed (''No connected '' @ p @ '' account found'')))
         \<and> (''instagram'' \<in> set names \<longrightarrow>
               findActiveAccount st userId (Str ''instagram'') \<noteq> None \<longrightarrow>
               noMedia mediaUrls \<longrightarrow>
               map_of rs ''instagram''
                 = Some \<lparr>success = False, postId = None,
                         error = Some ''Instagram requires at least one image'',
                         skipped = True, demo = False\<rparr>)
         \<and> (\<forall>p acc. \<exists>r st2.
               publishToPlatform w post userId mediaUrls (Str p) acc
                 = (Inr (setResult p r (fst acc)), st2)
             \<and> (\<forall>q. q \<noteq> p \<longrightarrow> map_of (setResult p r (fst acc)) q = map_of (fst acc) q)
             \<and> (\<forall>account client e st3.
                   findActiveAccount (snd acc) userId (Str p) = Some account \<longrightarrow>
                   getProperty platformClients p = Own client \<longrightarrow>
                   client w (snd acc) account (platformContent (snd acc) post (Str p)) mediaUrls
                     = (Inl e, st3) \<longrightarrow>
                   r = caught e)
             \<and> (\<forall>account client result st3.
                   findActiveAccount (snd acc) userId (Str p) = Some account \<longrightarrow>
                   getProperty platformClients p = Own client \<longrightarrow>
                   client w (snd acc) account (platformContent (snd acc) post (Str p)) mediaUrls
                     = (Inr result, st3) \<longrightarrow>
                   r = result))"
proof -
  note u = assms(3)
  obtain rs st1 where all: "publishToAll w post userId mediaUrls (map Str names) ([], st) = (Inr rs, st1)"
    and keys0: "fst ` set rs = fst ` set (fst (([] :: results), st)) \<union> (set names - {''__proto__''})"
    using publishToAll_keys [OF u, of post userId mediaUrls names "([], st)"] by blast
  have ret: "publishPost w st post userId = (Inr rs, st1)"
    using publishPost_returns [OF assms(1,2)] all by simp
  have keys: "fst ` set rs = set names"
    using keys0 assms(4) by simp
  have none: "\<forall>p\<in>set names. findActiveAccount st userId (Str p) = None \<longrightarrow>
               map_of rs p = Some (failed (''No connected '' @ p @ '' account found''))"
  proof (intro ballI impI)
    fix p assume p: "p \<in> set names"
      and n: "findActiveAccount st userId (Str p) = None"
    from p assms(4) have np: "p \<noteq> ''__proto__''" by blast
    show "map_of rs p = Some (failed (''No connected '' @ p @ '' account found''))"
    proof (rule publishToAll_fixed [OF u _ np _ _ all, where accounts = "social_accounts st"])
      show "social_accounts (snd (([] :: results), st)) = social_accounts st" by simp
      show "p \<in> set names \<or> map_of (fst (([] :: results), st)) p
              = Some (failed (''No connected '' @ p @ '' account found''))"
        using p by simp
    next
      fix acc :: "results \<times> store"
      assume "social_accounts (snd acc) = social_accounts st"
      with n show "\<exists>st1. publishToPlatform w post userId mediaUrls (Str p) acc
         = (Inr (setResult p (failed (''No connected '' @ p @ '' account found'')) (fst acc)), st1)"
        by (rule no_account_recorded)
    qed
  qed
  have insta: "''instagram'' \<in> set names \<longrightarrow>
               findActiveAccount st userId (Str ''instagram'') \<noteq> None \<longrightarrow>
               noMedia mediaUrls \<longrightarrow>
               map_of rs ''instagram''
                 = Some \<lparr>success = False, postId = None,
                         error = Some ''Instagram requires at least one image'',
                         skipped = True, demo = False\<rparr>"
  proof (intro impI)
    assume i: "''instagram'' \<in> set names"
      and a: "findActiveAccount st userId (Str ''instagram'') \<noteq> None"
      and m: "noMedia mediaUrls"
    from a obtain account where acct: "findActiveAccount st userId (Str ''instagram'') = Some account"
      by blast
    have np: "''instagram'' \<noteq> ''__proto__''" by simp
    show "map_of rs ''instagram''
                 = Some \<lparr>success = False, postId = None,
                         error = Some ''Instagram requires at least one image'',
                         skipped = True, demo = False\<rparr>"
    proof (rule publishToAll_fixed [OF u _ np _ _ all, where accounts = "social_accounts st"])
      show "social_accounts (snd (([] :: results), st)) = social_accounts st" by simp
      show "''instagram'' \<in> set names \<or> map_of (fst (([] :: results), st)) ''instagram''
              = Some \<lparr>success = False, postId = None,
                         error = Some ''Instagram requires at least one image'',
                         skipped = True, demo = False\<rparr>"
        using i by simp
    next
      fix acc :: "results \<times> store"
      assume "social_accounts (snd acc) = social_accounts st"
      with acct m show "\<exists>st1. publishToPlatform w post userId mediaUrls (Str ''instagram'') acc
         = (Inr (setResult ''instagram''
             \<lparr>success = False, postId = None,
              error = Some ''Instagram requires at least one image'',
              skipped = True, demo = False\<rparr> (fst acc)), st1)"
        by (rule instagram_without_media)
    qed
  qed
  have step: "\<forall>p acc. \<exists>r st2.
               publishToPlatform w post userId mediaUrls (Str p) acc
                 = (Inr (setResult p r (fst acc)), st2)
             \<and> (\<forall>q. q \<noteq> p \<longrightarrow> map_of (setResult p r (fst acc)) q = map_of (fst acc) q)
             \<and> (\<forall>account client e st3.
                   findActiveAccount (snd acc) userId (Str p) = Some account \<longrightarrow>
                   getProperty platformClients p = Own client \<longrightarrow>
                   client w (snd acc) account (platformContent (snd acc) post (Str p)) mediaUrls
                     = (Inl e, st3) \<longrightarrow>
                   r = caught e)
             \<and> (\<forall>account client result st3.
                   findActiveAccount (snd acc) userId (Str p) = Some account \<longrightarrow>
                   getProperty platformClients p = Own client \<longrightarrow>
                   client w (snd acc) account (platformContent (snd acc) post (Str p)) mediaUrls
                     = (Inr result, st3) \<longrightarrow>
                   r = result)"
  proof (intro allI)
    fix p and acc :: "results \<times> store"
    from publishToPlatform_result [OF u, of post userId mediaUrls p acc]
    obtain r st2 where r:
      "publishToPlatform w post userId mediaUrls (Str p) acc = (Inr (setResult p r (fst acc)), st2)"
      "\<forall>account client e st3.
          findActiveAccount (snd acc) userId (Str p) = Some account \<longrightarrow>
          getProperty platformClients p = Own client \<longrightarrow>
          client w (snd acc) account (platformContent (snd acc) post (Str p)) mediaUrls
            = (Inl e, st3) \<longrightarrow>
          r = caught e"
      "\<forall>account client result st3.
          findActiveAccount (snd acc) userId (Str p) = Some account \<longrightarrow>
          getProperty platformClients p = Own client \<longrightarrow>
          client w (snd acc) account (platformContent (snd acc) post (Str p)) mediaUrls
            = (Inr result, st3) \<longrightarrow>
          r = result"
      by (elim exE conjE)
    have only: "\<forall>q. q \<noteq> p \<longrightarrow> map_of (setResult p r (fst acc)) q = map_of (fst acc) q"
      by (simp add: setResult_other)
    from r(1) only r(2) r(3)
    show "\<exists>r st2.
               publishToPlatform w post userId mediaUrls (Str p) acc
                 = (Inr (setResult p r (fst acc)), st2)
             \<and> (\<forall>q. q \<noteq> p \<longrightarrow> map_of (setResult p r (fst acc)) q = map_of (fst acc) q)
             \<and> (\<forall>account client e st3.
                   findActiveAccount (snd acc) userId (Str p) = Some account \<longrightarrow>
                   getProperty platformClients p = Own client \<longrightarrow>
                   client w (snd acc) account (platformContent (snd acc) post (Str p)) mediaUrls
                     = (Inl e, st3) \<longrightarrow>
                   r = caught e)
             \<and> (\<forall>account client result st3.
                   findActiveAccount (snd acc) userId (Str p) = Some account \<longrightarrow>
                   getProperty platformClients p = Own client \<longrightarrow>
                   client w (snd acc) account (platformContent (snd acc) post (Str p)) mediaUrls
                     = (Inr result, st3) \<longrightarrow>
                   r = result)"
      by (intro exI conjI)
  qed
  from ret all keys none insta step show ?thesis by (intro exI conjI)
qed

text \<open>
  The example post: all three platforms are attempted, each failure is recorded, nothing is
  raised.
\<close>

theorem publishPost_contains_platform_failures_witness:
  "parseOrEmpty (p_platforms exDispatchPost) = Inr (JArray [''twitter'', ''instagram'', ''facebook''])
   \<and> parseOrEmpty (p_media_urls exDispatchPost) = Inr (JArray [])
   \<and> usableReply (Rejected (RequestError ''Request failed with status code 401''))
   \<and> ''__proto__'' \<notin> set [''twitter'', ''instagram'', ''facebook'']
   \<and> (\<exists>rs st1.
         publishPost exWorld exDispatchStore exDispatchPost 7 = (Inr rs, st1)
       \<and> fst ` set rs = set [''twitter'', ''instagram'', ''facebook'']
       \<and> map_of rs ''twitter'' = Some (failed ''No connected twitter account found''))
   \<and> fst (publishPost exWorld exDispatchStore exDispatchPost 7)
       = Inr [(''twitter'', failed ''No connected twitter account found''),
              (''instagram'',
                 \<lparr>success = False, postId = None,
                  error = Some ''Instagram requires at least one image'',
                  skipped = True, demo = False\<rparr>),
              (''facebook'', failed ''Request failed with status code 401'')]"
proof -
  have h1: "parseOrEmpty (p_platforms exDispatchPost)
              = Inr (JArray [''twitter'', ''instagram'', ''facebook''])"
    by (simp add: exDispatchPost_def exPost_def parseOrEmpty_def)
  have h2: "parseOrEmpty (p_media_urls exDispatchPost) = Inr (JArray [])"
    by (simp add: exDispatchPost_def exPost_def parseOrEmpty_def)
  have u: "usableReply (Rejected (RequestError ''Request failed with status code 401''))"
    by (simp add: usableReply_def)
  then have h3: "\<forall>n. usableReply (http exWorld n)"
    by (simp add: exWorld_def)
  have none: "findActiveAccount exDispatchStore 7 (Str ''twitter'') = None"
    by code_simp
  have h4: "''__proto__'' \<notin> set [''twitter'', ''instagram'', ''facebook'']" by simp
  obtain rs st1 where r: "publishPost exWorld exDispatchStore exDispatchPost 7 = (Inr rs, st1)"
      "fst ` set rs = set [''twitter'', ''instagram'', ''facebook'']"
      "\<forall>p\<in>set [''twitter'', ''instagram'', ''facebook''].
          findActiveAccount exDispatchStore 7 (Str p) = None \<longrightarrow>
          map_of rs p = Some (failed (''No connected '' @ p @ '' account found''))"
    using publishPost_contains_platform_failures [OF h1 h2 h3 h4, of exDispatchStore 7]
    by blast
  from r(3) none
  have tw: "map_of rs ''twitter'' = Some (failed ''No connected twitter account found'')"
    by simp
  have ev: "fst (publishPost exWorld exDispatchStore exDispatchPost 7)
       = Inr [(''twitter'', failed ''No connected twitter account found''),
              (''instagram'',
                 \<lparr>success = False, postId = None,
                  error = Some ''Instagram requires at least one image'',
                  skipped = True, demo = False\<rparr>),
              (''facebook'', failed ''Request failed with status code 401'')]"
    by code_simp
  from r(1,2) tw have "\<exists>rs st1.
         publishPost exWorld exDispatchStore exDispatchPost 7 = (Inr rs, st1)
       \<and> fst ` set rs = set [''twitter'', ''instagram'', ''facebook'']
       \<and> map_of rs ''twitter'' = Some (failed ''No connected twitter account found'')"
    by blast
  with h1 h2 u h4 ev show ?thesis by (intro conjI)
qed

text \<open>
  Claim C5 as worded fails. With an object before Twitter in the target list, the statement
  that records "no connected account" throws, the statement of the \<^verbatim>\<open>catch\<close> block throws
  again, and \<^verbatim>\<open>publishPost\<close> raises before Twitter is attempted. When Twitter accepts a post
  and its reply carries no identifier, the same happens after one request, and Facebook is
  not attempted. For the platform name \<^verbatim>\<open>__proto__\<close>, which has no connected account, no
  result is recorded.
\<close>

theorem publishPost_lets_failures_escape:
  "p_platforms exObjectPost = Parses (JMixed [Obj, Str ''twitter''])
   \<and> publishPost exWorld (exStore [] [exObjectPost]) exObjectPost 7
       = (Inl wrongApiUse, exStore [] [exObjectPost])
   \<and> p_platforms exSilentPost = Parses (JArray [''twitter'', ''facebook''])
   \<and> http exSilentWorld 0 = Response None
   \<and> fst (publishPost exSilentWorld exSilentStore exSilentPost 7) = Inl wrongApiUse
   \<and> step (snd (publishPost exSilentWorld exSilentStore exSilentPost 7)) = 1
   \<and> p_platforms exProtoPost = Parses (JArray [''__proto__'', ''twitter''])
   \<and> fst (publishPost exWorld (exStore [] [exProtoPost]) exProtoPost 7)
       = Inr [(''twitter'', failed ''No connected twitter account found'')]"
  by code_simp

text \<open>
  The scheduling loop catches what leaves \<^verbatim>\<open>publishPost\<close>; a thrown string has no message.
\<close>

lemma tick_catches_thrown_string:
  "r_results (fst (processScheduledPosts exWorld (exStore [] [exObjectPost])))
     = Some [\<lparr>e_postId = 5, e_status = ''failed'', e_platforms = None, e_error = None\<rparr>]
   \<and> map p_status (posts (snd (processScheduledPosts exWorld (exStore [] [exObjectPost]))))
       = [''failed'']"
  by code_simp

subsection \<open>The due-post selection\<close>

lemma in_dueRows:
  "(p, u) \<in> set (dueRows st now) \<longleftrightarrow>
     p \<in> set (posts st) \<and> p_status p = ''scheduled'' \<and> isDue now p
     \<and> u \<in> set (users st) \<and> p_user_id p = u"
  by (simp add: dueRows_def image_iff) blast

lemma sqlKey_order:
  "sqlKey (SqlNumber a) \<le> sqlKey (SqlNumber b) \<longleftrightarrow> a \<le> b"
  "sqlKey (SqlText s) \<le> sqlKey (SqlText t) \<longleftrightarrow> s \<le> t"
  "sqlKey (SqlNumber a) \<le> sqlKey (SqlText t)"
  "\<not> sqlKey (SqlText s) \<le> sqlKey (SqlNumber b)"
  "\<not> sqlKey (SqlBlob bytes) \<le> sqlKey (SqlText t)"
  "sqlKey SqlNull \<le> sqlKey v"
  by (auto simp: sqlKey_def less_eq_prod_def split: sql_value.splits)

lemma isDue_cases:
  "isDue now p \<longleftrightarrow>
     (\<exists>n. p_scheduled_at p = SqlNumber n) \<or> (\<exists>s. p_scheduled_at p = SqlText s \<and> s \<le> now)"
  by (cases "p_scheduled_at p") (simp_all add: isDue_def sqlLessEq_def sqlKey_order)

lemma sorted_take_drop:
  assumes "sorted (map f xs)" and "x \<in> set (take n xs)" and "y \<in> set xs" and "y \<notin> set (take n xs)"
  shows "f x \<le> f y"
proof -
  from assms(3,4) have "y \<in> set (drop n xs)"
    using set_append [of "take n xs" "drop n xs"] by auto
  moreover have "sorted (map f (take n xs) @ map f (drop n xs))"
    using assms(1) by (simp add: map_append [symmetric] del: map_append)
  ultimately show ?thesis using assms(2) by (auto simp: sorted_append)
qed

lemma selectDue_properties:
  assumes "selectDue st now = (rows, st1)"
  shows "(\<forall>row\<in>set rows.
            fst row \<in> set (posts st) \<and> p_status (fst row) = ''scheduled''
          \<and> isDue now (fst row)
          \<and> snd row = p_user_id (fst row) \<and> snd row \<in> set (users st))
       \<and> sorted (map (\<lambda>row. sqlKey (p_scheduled_at (fst row))) rows)
       \<and> (\<forall>row\<in>set rows. \<forall>other\<in>set (dueRows st now). other \<notin> set rows \<longrightarrow>
             sqlKey (p_scheduled_at (fst row)) \<le> sqlKey (p_scheduled_at (fst other)))
       \<and> length rows \<le> 10
       \<and> st1 = st"
proof -
  let ?key = "\<lambda>row :: due_row. sqlKey (p_scheduled_at (fst row))"
  let ?all = "sort_key ?key (dueRows st now)"
  from assms have rows: "rows = take 10 ?all" and st: "st1 = st"
    unfolding selectDue_def by blast+
  have sub: "set rows \<subseteq> set (dueRows st now)"
    unfolding rows using set_take_subset [of 10 ?all] by simp
  have each: "\<forall>row\<in>set rows.
            fst row \<in> set (posts st) \<and> p_status (fst row) = ''scheduled''
          \<and> isDue now (fst row)
          \<and> snd row = p_user_id (fst row) \<and> snd row \<in> set (users st)"
  proof
    fix row assume "row \<in> set rows"
    with sub have "row \<in> set (dueRows st now)" by blast
    then have d: "fst row \<in> set (posts st)" "p_status (fst row) = ''scheduled''"
        "isDue now (fst row)" "snd row \<in> set (users st)" "p_user_id (fst row) = snd row"
      using in_dueRows [of "fst row" "snd row" st now] by simp_all
    then show "fst row \<in> set (posts st) \<and> p_status (fst row) = ''scheduled''
          \<and> isDue now (fst row)
          \<and> snd row = p_user_id (fst row) \<and> snd row \<in> set (users st)"
      by simp
  qed
  have srtall: "sorted (map ?key ?all)" by (rule sorted_sort_key)
  have srt: "sorted (map ?key rows)"
    unfolding rows take_map [symmetric] by (rule sorted_wrt_take) (rule srtall)
  have first: "\<forall>row\<in>set rows. \<forall>other\<in>set (dueRows st now). other \<notin> set rows \<longrightarrow>
             ?key row \<le> ?key other"
  proof (intro ballI impI)
    fix row other
    assume r: "row \<in> set rows" and o: "other \<in> set (dueRows st now)" and n: "other \<notin> set rows"
    from o have "other \<in> set ?all" by simp
    with srtall r n show "?key row \<le> ?key other"
      unfolding rows by (intro sorted_take_drop [of ?key ?all row 10 other])
  qed
  have len: "length rows \<le> 10" unfolding rows by simp
  from each srt first len st show ?thesis by (intro conjI)
qed

text \<open>
  Claim C4, amended. Every post returned by the due-post selection has status \<^verbatim>\<open>scheduled\<close>
  and a stored \<^verbatim>\<open>scheduled_at\<close> that is at or below the ISO text of now in the order of stored
  values: it is a number, or a text that is bytewise at or below that text. The returned
  sequence is ascending by \<^verbatim>\<open>scheduled_at\<close> in that order (numbers by value before all texts,
  texts bytewise) and holds at most 10 posts; the selection has no side effect (the store it
  returns is the store it was given).

  On texts, \<open>\<le>\<close> is the lexicographic order of the character codes, which is the bytewise
  comparison.
\<close>

theorem selectDue_contract:
  assumes "selectDue st now = (rows, st1)"
  shows "(\<forall>row\<in>set rows.
            fst row \<in> set (posts st) \<and> p_status (fst row) = ''scheduled''
          \<and> ((\<exists>n. p_scheduled_at (fst row) = SqlNumber n)
              \<or> (\<exists>s. p_scheduled_at (fst row) = SqlText s \<and> s \<le> now))
          \<and> snd row = p_user_id (fst row) \<and> snd row \<in> set (users st))
       \<and> sorted (map (\<lambda>row. sqlKey (p_scheduled_at (fst row))) rows)
       \<and> length rows \<le> 10
       \<and> st1 = st"
proof -
  from selectDue_properties [OF assms]
  have each: "\<forall>row\<in>set rows.
            fst row \<in> set (posts st) \<and> p_status (fst row) = ''scheduled''
          \<and> isDue now (fst row)
          \<and> snd row = p_user_id (fst row) \<and> snd row \<in> set (users st)"
    and srt: "sorted (map (\<lambda>row. sqlKey (p_scheduled_at (fst row))) rows)"
    and len: "length rows \<le> 10" and st: "st1 = st"
    by blast+
  from each have each': "\<forall>row\<in>set rows.
            fst row \<in> set (posts st) \<and> p_status (fst row) = ''scheduled''
          \<and> ((\<exists>n. p_scheduled_at (fst row) = SqlNumber n)
              \<or> (\<exists>s. p_scheduled_at (fst row) = SqlText s \<and> s \<le> now))
          \<and> snd row = p_user_id (fst row) \<and> snd row \<in> set (users st)"
    unfolding isDue_cases .
  from each' srt len st show ?thesis by (intro conjI)
qed

text \<open>
  Five posts at 100 ms after the epoch: a draft, a post due later, a scheduled post without a
  time, and two due posts stored out of order, which come back by time.
\<close>

theorem selectDue_contract_witness:
  "toISOString 100 = ''1970-01-01T00:00:00.100Z''
   \<and> selectDue exSelectStore (toISOString 100)
     = ([(exPost 3 ''scheduled'' (Some 10) NoText, 7), (exPost 1 ''scheduled'' (Some 30) NoText, 7)],
        exSelectStore)
   \<and> map (\<lambda>row. p_scheduled_at (fst row))
        [(exPost 3 ''scheduled'' (Some 10) NoText, 7 :: int),
         (exPost 1 ''scheduled'' (Some 30) NoText, 7)]
       = [SqlText ''1970-01-01T00:00:00.010Z'', SqlText ''1970-01-01T00:00:00.030Z'']
   \<and> sorted (map (\<lambda>row. sqlKey (p_scheduled_at (fst row)))
        [(exPost 3 ''scheduled'' (Some 10) NoText, 7 :: int),
         (exPost 1 ''scheduled'' (Some 30) NoText, 7)])
   \<and> length [(exPost 3 ''scheduled'' (Some 10) NoText, 7 :: int),
               (exPost 1 ''scheduled'' (Some 30) NoText, 7)] \<le> 10"
proof -
  have iso: "toISOString 100 = ''1970-01-01T00:00:00.100Z''" by code_simp
  have ev: "selectDue exSelectStore (toISOString 100)
     = ([(exPost 3 ''scheduled'' (Some 10) NoText, 7), (exPost 1 ''scheduled'' (Some 30) NoText, 7)],
        exSelectStore)"
    by code_simp
  have texts: "map (\<lambda>row. p_scheduled_at (fst row))
        [(exPost 3 ''scheduled'' (Some 10) NoText, 7 :: int),
         (exPost 1 ''scheduled'' (Some 30) NoText, 7)]
       = [SqlText ''1970-01-01T00:00:00.010Z'', SqlText ''1970-01-01T00:00:00.030Z'']"
    by code_simp
  from selectDue_contract [OF ev]
  have srt: "sorted (map (\<lambda>row. sqlKey (p_scheduled_at (fst row)))
        [(exPost 3 ''scheduled'' (Some 10) NoText, 7 :: int),
         (exPost 1 ''scheduled'' (Some 30) NoText, 7)])"
    and len: "length [(exPost 3 ''scheduled'' (Some 10) NoText, 7 :: int),
               (exPost 1 ''scheduled'' (Some 30) NoText, 7)] \<le> 10"
    by blast+
  from iso ev texts srt len show ?thesis by (intro conjI)
qed

text \<open>
  Claim C4 as worded fails. On 7 January 1970 at 10:00 UTC the selection returns post 2, whose
  \<^verbatim>\<open>scheduled_at\<close> is the number 9999999999999, an instant of the year 2286, and returns it
  before post 1, which was due on 1 January 1970. It also returns post 3, whose text names
  23:00 of the same day and is bytewise below the text of now.
\<close>

theorem selectDue_returns_posts_not_yet_due:
  "toISOString 554400000 = ''1970-01-07T10:00:00.000Z''
   \<and> map (\<lambda>row. (p_id (fst row), p_scheduled_at (fst row)))
       (fst (selectDue exRawStore (toISOString 554400000)))
     = [(2, SqlNumber 9999999999999),
        (1, SqlText ''1970-01-01T00:00:00.010Z''),
        (3, SqlText ''1970-01-07 23:00:00'')]
   \<and> (554400000 :: int) < 9999999999999
   \<and> toISOString 9999999999999 = ''2286-11-20T17:46:39.999Z''"
  by code_simp

subsection \<open>One post of a tick\<close>

lemma posts_markProcessing:
  "posts (markProcessing st ident) =
     map (\<lambda>r. if p_id r = ident then r\<lparr>p_status := ''processing''\<rparr> else r) (posts st)"
  by (simp add: markProcessing_def)

lemma posts_finishPost:
  "posts (finishPost w st s ident) =
     map (\<lambda>r. if p_id r = ident
               then r\<lparr>p_status := s,
                      p_published_at :=
                        (if s = ''published'' \<or> s = ''partial'' then Some (clock w (step st)) else None),
                      p_updated_at := Some (clock w (step st))\<rparr>
               else r) (posts st)"
  by (simp add: finishPost_def)

lemma posts_markFailed:
  "posts (markFailed w st ident) =
     map (\<lambda>r. if p_id r = ident
               then r\<lparr>p_status := ''failed'', p_updated_at := Some (clock w (step st))\<rparr>
               else r) (posts st)"
  by (simp add: markFailed_def)

lemma finalStatus_cases:
  "finalStatus rs = ''published'' \<or> finalStatus rs = ''partial'' \<or> finalStatus rs = ''failed''"
  by (simp add: finalStatus_def)

lemma finalStatus_rule:
  "finalStatus rs =
     (if (\<forall>r\<in>set (map snd rs). success r) then ''published''
      else if (\<exists>r\<in>set (map snd rs). success r) then ''partial'' else ''failed'')"
  by (simp add: finalStatus_def allSuccess_def anySuccess_def list_all_iff list_ex_iff)

lemma processPost_returned:
  assumes "publishPost w (markProcessing st (p_id (fst row))) (fst row) (snd row) = (Inr rs, st1)"
  shows "processPost w row (es, st) =
           (es @ [\<lparr>e_postId = p_id (fst row), e_status = finalStatus rs,
                    e_platforms = Some rs, e_error = None\<rparr>],
            finishPost w st1 (finalStatus rs) (p_id (fst row)))"
  using assms by (simp add: processPost_def attemptPost_def)

lemma processPost_raised:
  assumes "publishPost w (markProcessing st (p_id (fst row))) (fst row) (snd row) = (Inl e, st1)"
  shows "processPost w row (es, st) =
           (es @ [\<lparr>e_postId = p_id (fst row), e_status = ''failed'', e_platforms = None,
                    e_error = message e\<rparr>],
            markFailed w st1 (p_id (fst row)))"
  using assms by (simp add: processPost_def attemptPost_def)

text \<open>
  What one iteration does to the posts table: every row keeps its identifier; the rows of the
  processed post end in a final status; the other rows are not touched.
\<close>

lemma processPost_rows:
  "list_all2 (\<lambda>r' r. p_id r' = p_id r
                \<and> (if p_id r = p_id (fst row)
                    then p_status r' = ''published'' \<or> p_status r' = ''partial'' \<or> p_status r' = ''failed''
                    else r' = r))
     (posts (snd (processPost w row acc))) (posts (snd acc))"
proof -
  let ?pid = "p_id (fst row)"
  obtain res st1 where run:
    "publishPost w (markProcessing (snd acc) ?pid) (fst row) (snd row) = (res, st1)"
    by (cases "publishPost w (markProcessing (snd acc) ?pid) (fst row) (snd row)")
  have p1: "posts st1 = posts (markProcessing (snd acc) ?pid)"
    using publishPost_tables [OF run] by simp
  have acc: "acc = (fst acc, snd acc)" by simp
  show ?thesis
  proof (cases res)
    case (Inl e)
    with run have "processPost w row (fst acc, snd acc) =
           (fst acc @ [\<lparr>e_postId = ?pid, e_status = ''failed'', e_platforms = None,
                    e_error = message e\<rparr>],
            markFailed w st1 ?pid)"
      by (intro processPost_raised) simp
    then have "posts (snd (processPost w row acc)) = posts (markFailed w st1 ?pid)"
      by simp
    then show ?thesis
      by (simp add: posts_markFailed p1 posts_markProcessing list_all2_map1 list_all2_same)
  next
    case (Inr rs)
    with run have "processPost w row (fst acc, snd acc) =
           (fst acc @ [\<lparr>e_postId = ?pid, e_status = finalStatus rs,
                    e_platforms = Some rs, e_error = None\<rparr>],
            finishPost w st1 (finalStatus rs) ?pid)"
      by (intro processPost_returned) simp
    then have "posts (snd (processPost w row acc)) = posts (finishPost w st1 (finalStatus rs) ?pid)"
      by simp
    then show ?thesis
      using finalStatus_cases [of rs]
      by (simp add: posts_finishPost p1 posts_markProcessing list_all2_map1 list_all2_same) blast
  qed
qed

lemma processAll_rows:
  "list_all2 (\<lambda>r' r. p_id r' = p_id r
                \<and> (if p_id r \<in> p_id ` fst ` set rows
                    then p_status r' = ''published'' \<or> p_status r' = ''partial'' \<or> p_status r' = ''failed''
                    else r' = r))
     (posts (snd (processAll w rows acc))) (posts (snd acc))"
proof (induction rows arbitrary: acc)
  case Nil
  show ?case by (simp add: list_all2_same)
next
  case (Cons row rows)
  let ?mid = "processPost w row acc"
  have step1: "list_all2 (\<lambda>r' r. p_id r' = p_id r
                \<and> (if p_id r = p_id (fst row)
                    then p_status r' = ''published'' \<or> p_status r' = ''partial'' \<or> p_status r' = ''failed''
                    else r' = r))
     (posts (snd ?mid)) (posts (snd acc))"
    by (rule processPost_rows)
  have rest: "list_all2 (\<lambda>r' r. p_id r' = p_id r
                \<and> (if p_id r \<in> p_id ` fst ` set rows
                    then p_status r' = ''published'' \<or> p_status r' = ''partial'' \<or> p_status r' = ''failed''
                    else r' = r))
     (posts (snd (processAll w rows ?mid))) (posts (snd ?mid))"
    by (rule Cons.IH)
  have "list_all2 (\<lambda>r' r. p_id r' = p_id r
                \<and> (if p_id r \<in> p_id ` fst ` set (row # rows)
                    then p_status r' = ''published'' \<or> p_status r' = ''partial'' \<or> p_status r' = ''failed''
                    else r' = r))
     (posts (snd (processAll w rows ?mid))) (posts (snd acc))"
  proof (rule list_all2_trans [OF _ rest step1])
    fix a b c :: post
    assume ab: "p_id a = p_id b
                \<and> (if p_id b \<in> p_id ` fst ` set rows
                    then p_status a = ''published'' \<or> p_status a = ''partial'' \<or> p_status a = ''failed''
                    else a = b)"
      and bc: "p_id b = p_id c
                \<and> (if p_id c = p_id (fst row)
                    then p_status b = ''published'' \<or> p_status b = ''partial'' \<or> p_status b = ''failed''
                    else b = c)"
    show "p_id a = p_id c
                \<and> (if p_id c \<in> p_id ` fst ` set (row # rows)
                    then p_status a = ''published'' \<or> p_status a = ''partial'' \<or> p_status a = ''failed''
                    else a = c)"
    proof (cases "p_id c \<in> p_id ` fst ` set rows")
      case True
      with ab bc show ?thesis by simp
    next
      case False
      show ?thesis
      proof (cases "p_id c = p_id (fst row)")
        case True
        with False ab bc show ?thesis by auto
      next
        case other: False
        with False ab bc show ?thesis by auto
      qed
    qed
  qed
  then show ?case by simp
qed

lemma processAll_length:
  "length (fst (processAll w rows acc)) = length (fst acc) + length rows"
proof (induction rows arbitrary: acc)
  case Nil
  show ?case by simp
next
  case (Cons row rows)
  have "length (fst (processPost w row acc)) = length (fst acc) + 1"
    by (simp add: processPost_def split: prod.splits sum.splits)
  then show ?case by (simp add: Cons.IH)
qed

subsection \<open>A whole tick\<close>

lemma dueRows_step: "dueRows (st\<lparr>step := k\<rparr>) now = dueRows st now"
  by (simp add: dueRows_def)

lemma selectDue_step: "fst (selectDue (st\<lparr>step := k\<rparr>) now) = fst (selectDue st now)"
  by (simp add: selectDue_def dueRows_step)

lemma tick_unfold:
  "processScheduledPosts w st =
     (if fst (selectDue st (toISOString (clock w (step st)))) = []
      then (\<lparr>processed = 0, r_results = None\<rparr>, st\<lparr>step := Suc (step st)\<rparr>)
      else (\<lparr>processed =
               length (fst (processAll w (fst (selectDue st (toISOString (clock w (step st)))))
                              ([], st\<lparr>step := Suc (step st)\<rparr>))),
             r_results =
               Some (fst (processAll w (fst (selectDue st (toISOString (clock w (step st)))))
                              ([], st\<lparr>step := Suc (step st)\<rparr>)))\<rparr>,
            snd (processAll w (fst (selectDue st (toISOString (clock w (step st)))))
                   ([], st\<lparr>step := Suc (step st)\<rparr>))))"
proof -
  have sel: "selectDue (st\<lparr>step := Suc (step st)\<rparr>) (toISOString (clock w (step st)))
      = (fst (selectDue st (toISOString (clock w (step st)))), st\<lparr>step := Suc (step st)\<rparr>)"
    by (simp add: selectDue_def dueRows_step)
  show ?thesis
    by (simp add: processScheduledPosts_def readClock_def sel split: prod.splits)
qed

lemma tick_rows:
  assumes "processScheduledPosts w st = (rep, st')"
  shows "list_all2 (\<lambda>r' r. p_id r' = p_id r
                \<and> (if p_id r \<in> p_id ` fst ` set (fst (selectDue st (toISOString (clock w (step st)))))
                    then p_status r' = ''published'' \<or> p_status r' = ''partial'' \<or> p_status r' = ''failed''
                    else r' = r))
     (posts st') (posts st)"
proof (cases "fst (selectDue st (toISOString (clock w (step st)))) = []")
  case True
  with assms have "posts st' = posts st" by (auto simp: tick_unfold)
  with True show ?thesis by (simp add: list_all2_same)
next
  case False
  let ?rows = "fst (selectDue st (toISOString (clock w (step st))))"
  from False assms have "st' = snd (processAll w ?rows ([], st\<lparr>step := Suc (step st)\<rparr>))"
    by (simp add: tick_unfold)
  then show ?thesis
    using processAll_rows [of ?rows w "([], st\<lparr>step := Suc (step st)\<rparr>)"] by simp
qed

lemma tick_processed:
  assumes "processScheduledPosts w st = (rep, st')"
  shows "processed rep = length (fst (selectDue st (toISOString (clock w (step st)))))"
proof (cases "fst (selectDue st (toISOString (clock w (step st)))) = []")
  case True
  with assms have "rep = \<lparr>processed = 0, r_results = None\<rparr>" by (simp add: tick_unfold)
  with True show ?thesis by simp
next
  case False
  with assms have "processed rep =
      length (fst (processAll w (fst (selectDue st (toISOString (clock w (step st)))))
                              ([], st\<lparr>step := Suc (step st)\<rparr>)))"
    by (auto simp: tick_unfold)
  then show ?thesis by (simp add: processAll_length)
qed

lemma all_due_selected:
  assumes "length (dueRows st now) \<le> 10"
    and "p \<in> set (posts st)" "p_status p = ''scheduled''" "isDue now p" "p_user_id p \<in> set (users st)"
  shows "p_id p \<in> p_id ` fst ` set (fst (selectDue st now))"
proof -
  have "fst (selectDue st now)
      = sort_key (\<lambda>row. sqlKey (p_scheduled_at (fst row))) (dueRows st now)"
    using assms(1) by (simp add: selectDue_def)
  then have "set (fst (selectDue st now)) = set (dueRows st now)" by simp
  moreover have "(p, p_user_id p) \<in> set (dueRows st now)"
    using assms(2-5) by (simp add: in_dueRows)
  ultimately have "(p, p_user_id p) \<in> set (fst (selectDue st now))" by simp
  then have "p_id (fst (p, p_user_id p)) \<in> p_id ` fst ` set (fst (selectDue st now))"
    by (intro imageI)
  then show ?thesis by simp
qed

text \<open>
  Claim C3, amended. Call a post due when its status is \<^verbatim>\<open>scheduled\<close>, its owner exists and
  its stored \<^verbatim>\<open>scheduled_at\<close> is at or below the ISO text of now in the order of stored values
  (a number, or a text that is bytewise at or below that text). A tick selects at most 10 due
  posts, the first in that order: no due post left out comes before a selected one, and all
  are selected when no more than 10 are due. When the tick completes, every selected post has
  a status among \<^verbatim>\<open>published\<close>, \<^verbatim>\<open>partial\<close> and \<^verbatim>\<open>failed\<close>: it is neither \<^verbatim>\<open>scheduled\<close> nor
  \<^verbatim>\<open>processing\<close>. Every other post, a due post beyond the limit included, is left as it was;
  the tick reports as many posts as it selected.

  On texts, \<open>\<le>\<close> is the lexicographic order of the character codes, which is the bytewise
  comparison; \<open>sqlKey\<close> orders stored values as SQLite does.
\<close>

theorem tick_settles_selected_posts:
  assumes "processScheduledPosts w st = (rep, st')"
    and "now = toISOString (clock w (step st))"
    and "selected = fst (selectDue st now)"
  shows "length (posts st') = length (posts st)
       \<and> (\<forall>i<length (posts st).
             p_id (posts st' ! i) = p_id (posts st ! i)
           \<and> (p_id (posts st ! i) \<in> p_id ` fst ` set selected \<longrightarrow>
                p_status (posts st' ! i) \<in> {''published'', ''partial'', ''failed''})
           \<and> (p_id (posts st ! i) \<notin> p_id ` fst ` set selected \<longrightarrow>
                posts st' ! i = posts st ! i))
       \<and> (\<forall>row\<in>set selected.
             fst row \<in> set (posts st) \<and> p_status (fst row) = ''scheduled''
           \<and> snd row = p_user_id (fst row) \<and> snd row \<in> set (users st)
           \<and> ((\<exists>n. p_scheduled_at (fst row) = SqlNumber n)
               \<or> (\<exists>s. p_scheduled_at (fst row) = SqlText s \<and> s \<le> now)))
       \<and> length selected \<le> 10
       \<and> sorted (map (\<lambda>row. sqlKey (p_scheduled_at (fst row))) selected)
       \<and> (\<forall>p\<in>set (posts st).
             p_status p = ''scheduled'' \<and> isDue now p \<and> p_user_id p \<in> set (users st)
             \<and> p_id p \<notin> p_id ` fst ` set selected \<longrightarrow>
             (\<forall>row\<in>set selected. sqlKey (p_scheduled_at (fst row)) \<le> sqlKey (p_scheduled_at p)))
       \<and> (length (dueRows st now) \<le> 10 \<longrightarrow>
            (\<forall>p\<in>set (posts st).
               p_status p = ''scheduled'' \<and> isDue now p \<and> p_user_id p \<in> set (users st) \<longrightarrow>
               p_id p \<in> p_id ` fst ` set selected))
       \<and> processed rep = length selected"
proof -
  have rel: "list_all2 (\<lambda>r' r. p_id r' = p_id r
                \<and> (if p_id r \<in> p_id ` fst ` set selected
                    then p_status r' = ''published'' \<or> p_status r' = ''partial'' \<or> p_status r' = ''failed''
                    else r' = r))
     (posts st') (posts st)"
    using tick_rows [OF assms(1)] assms(2,3) by simp
  then have len: "length (posts st') = length (posts st)"
    by (rule list_all2_lengthD)
  have nth: "\<forall>i<length (posts st).
             p_id (posts st' ! i) = p_id (posts st ! i)
           \<and> (p_id (posts st ! i) \<in> p_id ` fst ` set selected \<longrightarrow>
                p_status (posts st' ! i) \<in> {''published'', ''partial'', ''failed''})
           \<and> (p_id (posts st ! i) \<notin> p_id ` fst ` set selected \<longrightarrow>
                posts st' ! i = posts st ! i)"
  proof (intro allI impI)
    fix i assume i: "i < length (posts st)"
    with len have "i < length (posts st')" by simp
    from list_all2_nthD [OF rel this]
    have "p_id (posts st' ! i) = p_id (posts st ! i)
                \<and> (if p_id (posts st ! i) \<in> p_id ` fst ` set selected
                    then p_status (posts st' ! i) = ''published'' \<or> p_status (posts st' ! i) = ''partial''
                         \<or> p_status (posts st' ! i) = ''failed''
                    else posts st' ! i = posts st ! i)" .
    then show "p_id (posts st' ! i) = p_id (posts st ! i)
           \<and> (p_id (posts st ! i) \<in> p_id ` fst ` set selected \<longrightarrow>
                p_status (posts st' ! i) \<in> {''published'', ''partial'', ''failed''})
           \<and> (p_id (posts st ! i) \<notin> p_id ` fst ` set selected \<longrightarrow>
                posts st' ! i = posts st ! i)"
      by (cases "p_id (posts st ! i) \<in> p_id ` fst ` set selected") simp_all
  qed
  have pair: "selectDue st now = (selected, snd (selectDue st now))"
    using assms(3) by simp
  from selectDue_properties [OF pair]
  have c: "\<forall>row\<in>set selected.
            fst row \<in> set (posts st) \<and> p_status (fst row) = ''scheduled''
          \<and> isDue now (fst row)
          \<and> snd row = p_user_id (fst row) \<and> snd row \<in> set (users st)"
    and srt: "sorted (map (\<lambda>row. sqlKey (p_scheduled_at (fst row))) selected)"
    and first: "\<forall>row\<in>set selected. \<forall>other\<in>set (dueRows st now). other \<notin> set selected \<longrightarrow>
             sqlKey (p_scheduled_at (fst row)) \<le> sqlKey (p_scheduled_at (fst other))"
    and l10: "length selected \<le> 10"
    by blast+
  have due: "\<forall>row\<in>set selected.
             fst row \<in> set (posts st) \<and> p_status (fst row) = ''scheduled''
           \<and> snd row = p_user_id (fst row) \<and> snd row \<in> set (users st)
           \<and> ((\<exists>n. p_scheduled_at (fst row) = SqlNumber n)
               \<or> (\<exists>s. p_scheduled_at (fst row) = SqlText s \<and> s \<le> now))"
  proof
    fix row assume "row \<in> set selected"
    with c have r: "fst row \<in> set (posts st)" "p_status (fst row) = ''scheduled''"
      "isDue now (fst row)" "snd row = p_user_id (fst row)" "snd row \<in> set (users st)"
      by blast+
    from r(3) have "(\<exists>n. p_scheduled_at (fst row) = SqlNumber n)
               \<or> (\<exists>s. p_scheduled_at (fst row) = SqlText s \<and> s \<le> now)"
      unfolding isDue_cases .
    with r show "fst row \<in> set (posts st) \<and> p_status (fst row) = ''scheduled''
           \<and> snd row = p_user_id (fst row) \<and> snd row \<in> set (users st)
           \<and> ((\<exists>n. p_scheduled_at (fst row) = SqlNumber n)
               \<or> (\<exists>s. p_scheduled_at (fst row) = SqlText s \<and> s \<le> now))"
      by blast
  qed
  have earliest: "\<forall>p\<in>set (posts st).
             p_status p = ''scheduled'' \<and> isDue now p \<and> p_user_id p \<in> set (users st)
             \<and> p_id p \<notin> p_id ` fst ` set selected \<longrightarrow>
             (\<forall>row\<in>set selected. sqlKey (p_scheduled_at (fst row)) \<le> sqlKey (p_scheduled_at p))"
  proof (intro ballI impI)
    fix p row
    assume p: "p \<in> set (posts st)"
      and h: "p_status p = ''scheduled'' \<and> isDue now p \<and> p_user_id p \<in> set (users st)
             \<and> p_id p \<notin> p_id ` fst ` set selected"
      and row: "row \<in> set selected"
    from p h have d: "(p, p_user_id p) \<in> set (dueRows st now)" by (simp add: in_dueRows)
    have "(p, p_user_id p) \<notin> set selected"
    proof
      assume "(p, p_user_id p) \<in> set selected"
      then have "p_id (fst (p, p_user_id p)) \<in> p_id ` fst ` set selected" by (intro imageI)
      with h show False by simp
    qed
    with first row d
    have "sqlKey (p_scheduled_at (fst row)) \<le> sqlKey (p_scheduled_at (fst (p, p_user_id p)))"
      by blast
    then show "sqlKey (p_scheduled_at (fst row)) \<le> sqlKey (p_scheduled_at p)" by simp
  qed
  have allsel: "length (dueRows st now) \<le> 10 \<longrightarrow>
            (\<forall>p\<in>set (posts st).
               p_status p = ''scheduled'' \<and> isDue now p \<and> p_user_id p \<in> set (users st) \<longrightarrow>
               p_id p \<in> p_id ` fst ` set selected)"
    using all_due_selected [of st now] assms(3) by blast
  have cnt: "processed rep = length selected"
    using tick_processed [OF assms(1)] assms(2,3) by simp
  from len nth due l10 srt earliest allsel cnt show ?thesis by (intro conjI)
qed

text \<open>
  The tick over \<open>exTickStore\<close>: the two due posts are selected and settled (post 3 first,
  whose exception is caught), the draft and the post due later are untouched.
\<close>

theorem tick_settles_selected_posts_witness:
  "map (\<lambda>row. p_id (fst row))
     (fst (selectDue exTickStore (toISOString (clock exWorld (step exTickStore))))) = [3, 1]
   \<and> processed (fst (processScheduledPosts exWorld exTickStore)) = 2
   \<and> length (posts (snd (processScheduledPosts exWorld exTickStore))) = length (posts exTickStore)
   \<and> map p_status (posts (snd (processScheduledPosts exWorld exTickStore)))
       = [''published'', ''draft'', ''failed'', ''scheduled'']"
proof -
  have sel: "map (\<lambda>row. p_id (fst row))
               (fst (selectDue exTickStore (toISOString (clock exWorld (step exTickStore))))) = [3, 1]"
    by code_simp
  then have two:
    "length (fst (selectDue exTickStore (toISOString (clock exWorld (step exTickStore))))) = 2"
    using length_map [of "\<lambda>row. p_id (fst row)"
        "fst (selectDue exTickStore (toISOString (clock exWorld (step exTickStore))))"]
    by simp
  have run: "processScheduledPosts exWorld exTickStore
        = (fst (processScheduledPosts exWorld exTickStore),
           snd (processScheduledPosts exWorld exTickStore))"
    by simp
  from tick_settles_selected_posts [OF run refl refl]
  have len: "length (posts (snd (processScheduledPosts exWorld exTickStore)))
               = length (posts exTickStore)"
    and cnt: "processed (fst (processScheduledPosts exWorld exTickStore))
               = length (fst (selectDue exTickStore (toISOString (clock exWorld (step exTickStore)))))"
    by blast+
  have st: "map p_status (posts (snd (processScheduledPosts exWorld exTickStore)))
       = [''published'', ''draft'', ''failed'', ''scheduled'']"
    by code_simp
  from sel cnt two len st show ?thesis by simp
qed

text \<open>
  Claim C3 as worded fails. Eleven posts are scheduled, have an owner and a \<^verbatim>\<open>scheduled_at\<close>
  (1 to 11 ms after the epoch) before now (7 January 1970, 10:00 UTC); after the tick the
  eleventh is still \<^verbatim>\<open>scheduled\<close>.
\<close>

theorem tick_leaves_eleventh_due_post:
  "p_status (posts exCrowdedStore ! 10) = ''scheduled''
   \<and> p_scheduled_at (posts exCrowdedStore ! 10) = SqlText ''1970-01-01T00:00:00.011Z''
   \<and> toISOString (clock exWorld (step exCrowdedStore)) = ''1970-01-07T10:00:00.000Z''
   \<and> isDue (toISOString (clock exWorld (step exCrowdedStore))) (posts exCrowdedStore ! 10)
   \<and> p_user_id (posts exCrowdedStore ! 10) \<in> set (users exCrowdedStore)
   \<and> p_status (posts (snd (processScheduledPosts exWorld exCrowdedStore)) ! 10) = ''scheduled''
   \<and> map p_status (posts (snd (processScheduledPosts exWorld exCrowdedStore)))
       = [''failed'', ''failed'', ''failed'', ''failed'', ''failed'', ''failed'', ''failed'',
          ''failed'', ''failed'', ''failed'', ''scheduled'']"
  by code_simp

text \<open>
  The comparison is the one of the stored values. A post whose \<^verbatim>\<open>scheduled_at\<close> was stored as
  the text \<^verbatim>\<open>Wed, 07 Jan 1970 09:00:00 GMT\<close>, an hour before now, is not selected: the text is
  bytewise above the ISO text of now. The post stays \<^verbatim>\<open>scheduled\<close>.
\<close>

lemma tick_misses_post_in_other_format:
  "toISOString (clock exWorld 0) = ''1970-01-07T10:00:00.000Z''
   \<and> \<not> isDue (toISOString (clock exWorld 0))
         ((exPost 1 ''scheduled'' None NoText)
            \<lparr>p_scheduled_at := SqlText ''Wed, 07 Jan 1970 09:00:00 GMT''\<rparr>)
   \<and> map p_status
         (posts (snd (processScheduledPosts exWorld
            (exStore [] [(exPost 1 ''scheduled'' None NoText)
                           \<lparr>p_scheduled_at := SqlText ''Wed, 07 Jan 1970 09:00:00 GMT''\<rparr>]))))
       = [''scheduled'']"
  by code_simp

subsection \<open>Status and time stamp of a processed post\<close>

lemma finishPost_rows:
  assumes "r \<in> set (posts (finishPost w st s ident))" and "p_id r = ident"
  shows "p_status r = s
       \<and> p_published_at r = (if s = ''published'' \<or> s = ''partial'' then Some (clock w (step st)) else None)"
proof -
  from assms(1) obtain x where x: "x \<in> set (posts st)"
    "r = (if p_id x = ident
               then x\<lparr>p_status := s,
                      p_published_at :=
                        (if s = ''published'' \<or> s = ''partial'' then Some (clock w (step st)) else None),
                      p_updated_at := Some (clock w (step st))\<rparr>
               else x)"
    unfolding posts_finishPost set_map by blast
  show ?thesis
  proof (cases "p_id x = ident")
    case True
    with x(2) show ?thesis by simp
  next
    case False
    with x(2) assms(2) show ?thesis by simp
  qed
qed

lemma markFailed_rows:
  assumes "r \<in> set (posts (markFailed w st ident))" and "p_id r = ident"
  shows "p_status r = ''failed''"
proof -
  from assms(1) obtain x where x: "x \<in> set (posts st)"
    "r = (if p_id x = ident
               then x\<lparr>p_status := ''failed'', p_updated_at := Some (clock w (step st))\<rparr>
               else x)"
    unfolding posts_markFailed set_map by blast
  show ?thesis
  proof (cases "p_id x = ident")
    case True
    with x(2) show ?thesis by simp
  next
    case False
    with x(2) assms(2) show ?thesis by simp
  qed
qed

text \<open>
  Claim C1 (as amended). For every post processed by the scheduling loop whose dispatch
  returns, the final status is computed from the per-platform outcomes: \<^verbatim>\<open>published\<close> if
  every outcome succeeded, else \<^verbatim>\<open>partial\<close> if at least one succeeded, else \<^verbatim>\<open>failed\<close>. For
  an empty outcome set every outcome succeeded, so the final status is \<^verbatim>\<open>published\<close>.
\<close>

theorem tick_status_from_outcomes:
  assumes "publishPost w (markProcessing st (p_id (fst row))) (fst row) (snd row) = (Inr rs, st1)"
  shows "processPost w row (es, st) =
           (es @ [\<lparr>e_postId = p_id (fst row), e_status = finalStatus rs,
                    e_platforms = Some rs, e_error = None\<rparr>],
            finishPost w st1 (finalStatus rs) (p_id (fst row)))
       \<and> (\<forall>r\<in>set (posts (snd (processPost w row (es, st)))).
             p_id r = p_id (fst row) \<longrightarrow> p_status r = finalStatus rs)
       \<and> finalStatus rs =
           (if (\<forall>r\<in>set (map snd rs). success r) then ''published''
            else if (\<exists>r\<in>set (map snd rs). success r) then ''partial'' else ''failed'')
       \<and> (rs = [] \<longrightarrow> finalStatus rs = ''published'')"
proof -
  have run: "processPost w row (es, st) =
           (es @ [\<lparr>e_postId = p_id (fst row), e_status = finalStatus rs,
                    e_platforms = Some rs, e_error = None\<rparr>],
            finishPost w st1 (finalStatus rs) (p_id (fst row)))"
    using assms by (rule processPost_returned)
  have rows: "\<forall>r\<in>set (posts (snd (processPost w row (es, st)))).
             p_id r = p_id (fst row) \<longrightarrow> p_status r = finalStatus rs"
    using finishPost_rows [of _ w st1 "finalStatus rs" "p_id (fst row)"] by (simp add: run)
  have empty: "rs = [] \<longrightarrow> finalStatus rs = ''published''"
    by (simp add: finalStatus_rule)
  from run rows finalStatus_rule [of rs] empty show ?thesis by (intro conjI)
qed

text \<open>
  Twitter succeeds and Instagram refuses: the post is \<^verbatim>\<open>partial\<close>.
\<close>

theorem tick_status_from_outcomes_witness:
  "fst (publishPost exWorld (markProcessing exMixedStore (p_id (fst (exMixedPost, 7 :: int))))
          (fst (exMixedPost, 7 :: int)) (snd (exMixedPost, 7 :: int)))
     = Inr [(''twitter'',
               \<lparr>success = True, postId = Some (DemoId ''tw_demo_'' 554400001), error = None,
                skipped = False, demo = True\<rparr>),
            (''instagram'',
               \<lparr>success = False, postId = None,
                error = Some ''Instagram requires at least one image'',
                skipped = True, demo = False\<rparr>)]
   \<and> map e_status (fst (processPost exWorld (exMixedPost, 7) ([], exMixedStore))) = [''partial'']
   \<and> map p_status (posts (snd (processPost exWorld (exMixedPost, 7) ([], exMixedStore))))
       = [''partial'']"
proof -
  let ?rs = "[(''twitter'',
               \<lparr>success = True, postId = Some (DemoId ''tw_demo_'' 554400001), error = None,
                skipped = False, demo = True\<rparr>),
            (''instagram'',
               \<lparr>success = False, postId = None,
                error = Some ''Instagram requires at least one image'',
                skipped = True, demo = False\<rparr>)]"
  let ?run = "publishPost exWorld (markProcessing exMixedStore (p_id (fst (exMixedPost, 7 :: int))))
          (fst (exMixedPost, 7 :: int)) (snd (exMixedPost, 7 :: int))"
  have ev: "fst ?run = Inr ?rs"
    by code_simp
  then have hyp: "?run = (Inr ?rs, snd ?run)"
    using surjective_pairing [of ?run] by simp
  have fs: "finalStatus ?rs = ''partial''"
    by code_simp
  from tick_status_from_outcomes [OF hyp, of "[]"]
  have "processPost exWorld (exMixedPost, 7) ([], exMixedStore) =
           ([] @ [\<lparr>e_postId = p_id (fst (exMixedPost, 7 :: int)), e_status = finalStatus ?rs,
                    e_platforms = Some ?rs, e_error = None\<rparr>],
            finishPost exWorld (snd ?run) (finalStatus ?rs) (p_id (fst (exMixedPost, 7 :: int))))"
    by blast
  then have entries: "map e_status (fst (processPost exWorld (exMixedPost, 7) ([], exMixedStore)))
      = [''partial'']"
    using fs by simp
  have rows: "map p_status (posts (snd (processPost exWorld (exMixedPost, 7) ([], exMixedStore))))
       = [''partial'']"
    by code_simp
  from ev entries rows show ?thesis by (intro conjI)
qed

text \<open>
  A due post whose list of platforms is empty: the outcome set is empty and the post ends
  \<^verbatim>\<open>published\<close>, not \<^verbatim>\<open>failed\<close>.
\<close>

theorem tick_publishes_post_without_platforms:
  "p_platforms (posts exEmptyTargetsStore ! 0) = Parses (JArray [])
   \<and> r_results (fst (processScheduledPosts exWorld exEmptyTargetsStore))
       = Some [\<lparr>e_postId = 1, e_status = ''published'', e_platforms = Some [], e_error = None\<rparr>]
   \<and> map p_status (posts (snd (processScheduledPosts exWorld exEmptyTargetsStore)))
       = [''published'']"
  by code_simp

text \<open>
  Claim C6. Within one tick, if processing one selected post throws, the exception is caught
  at the per-post boundary, that post's status is set to \<^verbatim>\<open>failed\<close>, and the loop goes on
  with the next selected post.

  The thrown value \<open>e\<close> is any that leaves \<^verbatim>\<open>publishPost\<close>, an error object or a string; the
  entry of the report holds its \<^verbatim>\<open>message\<close>, which a string does not have.
\<close>

theorem tick_catches_post_exception:
  assumes "publishPost w (markProcessing st (p_id (fst row))) (fst row) (snd row) = (Inl e, st1)"
  shows "processPost w row (es, st) =
           (es @ [\<lparr>e_postId = p_id (fst row), e_status = ''failed'', e_platforms = None,
                    e_error = message e\<rparr>],
            markFailed w st1 (p_id (fst row)))
       \<and> (\<forall>r\<in>set (posts (snd (processPost w row (es, st)))).
             p_id r = p_id (fst row) \<longrightarrow> p_status r = ''failed'')
       \<and> processAll w (row # rest) (es, st) = processAll w rest (processPost w row (es, st))
       \<and> length (fst (processAll w (row # rest) (es, st))) = length es + 1 + length rest"
proof -
  have run: "processPost w row (es, st) =
           (es @ [\<lparr>e_postId = p_id (fst row), e_status = ''failed'', e_platforms = None,
                    e_error = message e\<rparr>],
            markFailed w st1 (p_id (fst row)))"
    using assms by (rule processPost_raised)
  have rows: "\<forall>r\<in>set (posts (snd (processPost w row (es, st)))).
             p_id r = p_id (fst row) \<longrightarrow> p_status r = ''failed''"
    using markFailed_rows [of _ w st1 "p_id (fst row)"] by (simp add: run)
  have next_post: "processAll w (row # rest) (es, st) = processAll w rest (processPost w row (es, st))"
    by simp
  have count: "length (fst (processAll w (row # rest) (es, st))) = length es + 1 + length rest"
    by (simp add: processAll_length del: processAll.simps)
  from run rows next_post count show ?thesis by (intro conjI)
qed

text \<open>
  Post 3 of \<open>exTickStore\<close> does not parse: it is marked \<^verbatim>\<open>failed\<close>, and post 1 after it
  is processed and published.
\<close>

theorem tick_catches_post_exception_witness:
  "fst (publishPost exWorld
          (markProcessing exTickStore (p_id (fst (exPost 3 ''scheduled'' (Some 5) Unparsable, 7 :: int))))
          (fst (exPost 3 ''scheduled'' (Some 5) Unparsable, 7 :: int))
          (snd (exPost 3 ''scheduled'' (Some 5) Unparsable, 7 :: int)))
     = Inl (SyntaxError ''Unexpected token in JSON'')
   \<and> fst (processPost exWorld (exPost 3 ''scheduled'' (Some 5) Unparsable, 7) ([], exTickStore))
       = [\<lparr>e_postId = 3, e_status = ''failed'', e_platforms = None,
            e_error = Some ''Unexpected token in JSON''\<rparr>]
   \<and> length (fst (processAll exWorld
                      [(exPost 3 ''scheduled'' (Some 5) Unparsable, 7),
                       (exPost 1 ''scheduled'' (Some 10) (Parses (JArray [''twitter''])), 7)]
                      ([], exTickStore))) = 2
   \<and> map p_status (posts (snd (processAll exWorld
                      [(exPost 3 ''scheduled'' (Some 5) Unparsable, 7),
                       (exPost 1 ''scheduled'' (Some 10) (Parses (JArray [''twitter''])), 7)]
                      ([], exTickStore))))
       = [''published'', ''draft'', ''failed'', ''scheduled'']"
proof -
  let ?row = "(exPost 3 ''scheduled'' (Some 5) Unparsable, 7 :: int)"
  let ?next = "(exPost 1 ''scheduled'' (Some 10) (Parses (JArray [''twitter''])), 7 :: int)"
  let ?run = "publishPost exWorld (markProcessing exTickStore (p_id (fst ?row))) (fst ?row) (snd ?row)"
  have ev: "fst ?run = Inl (SyntaxError ''Unexpected token in JSON'')"
    by code_simp
  then have hyp: "?run = (Inl (SyntaxError ''Unexpected token in JSON''), snd ?run)"
    using surjective_pairing [of ?run] by simp
  from tick_catches_post_exception [OF hyp, of "[]" "[?next]"]
  have entry: "processPost exWorld ?row ([], exTickStore) =
           ([] @ [\<lparr>e_postId = p_id (fst ?row), e_status = ''failed'', e_platforms = None,
                    e_error = message (SyntaxError ''Unexpected token in JSON'')\<rparr>],
            markFailed exWorld (snd ?run) (p_id (fst ?row)))"
    and count: "length (fst (processAll exWorld (?row # [?next]) ([], exTickStore)))
                  = length ([] :: tick_entry list) + 1 + length [?next]"
    by blast+
  from entry have e: "fst (processPost exWorld ?row ([], exTickStore))
       = [\<lparr>e_postId = 3, e_status = ''failed'', e_platforms = None,
            e_error = Some ''Unexpected token in JSON''\<rparr>]"
    by (simp add: exPost_def)
  from count have c: "length (fst (processAll exWorld [?row, ?next] ([], exTickStore))) = 2"
    by simp
  have rows: "map p_status (posts (snd (processAll exWorld [?row, ?next] ([], exTickStore))))
       = [''published'', ''draft'', ''failed'', ''scheduled'']"
    by code_simp
  from ev e c rows show ?thesis by (intro conjI)
qed

text \<open>
  On the path where the dispatch returns, the final update sets \<^verbatim>\<open>published_at\<close> exactly for
  \<^verbatim>\<open>published\<close> and \<^verbatim>\<open>partial\<close> and clears it for \<^verbatim>\<open>failed\<close>.
\<close>

lemma attemptPost_stamps_published_at:
  assumes "attemptPost w row st = (Inr entry, st')"
  shows "\<forall>r\<in>set (posts st'). p_id r = p_id (fst row) \<longrightarrow>
           p_status r = e_status entry
         \<and> (p_published_at r \<noteq> None) = (p_status r = ''published'' \<or> p_status r = ''partial'')
         \<and> (p_status r = ''failed'' \<longrightarrow> p_published_at r = None)
         \<and> (p_status r = ''published'' \<or> p_status r = ''partial'' \<longrightarrow>
              p_published_at r =
                Some (clock w (step (snd (publishPost w (markProcessing st (p_id (fst row)))
                                            (fst row) (snd row))))))"
proof (intro ballI impI)
  fix r assume r: "r \<in> set (posts st')" and ident: "p_id r = p_id (fst row)"
  let ?pid = "p_id (fst row)"
  obtain res st1 where run:
    "publishPost w (markProcessing st ?pid) (fst row) (snd row) = (res, st1)"
    by (cases "publishPost w (markProcessing st ?pid) (fst row) (snd row)")
  from assms run obtain rs where rs: "res = Inr rs"
    by (cases res) (simp_all add: attemptPost_def)
  from assms run rs have entry: "e_status entry = finalStatus rs"
    and st': "st' = finishPost w st1 (finalStatus rs) ?pid"
    by (auto simp: attemptPost_def)
  from finishPost_rows [of r w st1 "finalStatus rs" ?pid] r ident st'
  have f: "p_status r = finalStatus rs"
    "p_published_at r =
       (if finalStatus rs = ''published'' \<or> finalStatus rs = ''partial''
        then Some (clock w (step st1)) else None)"
    by simp_all
  have st1: "snd (publishPost w (markProcessing st ?pid) (fst row) (snd row)) = st1"
    using run by simp
  from finalStatus_cases [of rs] consider
    "finalStatus rs = ''published''" | "finalStatus rs = ''partial''" | "finalStatus rs = ''failed''"
    by blast
  then show "p_status r = e_status entry
         \<and> (p_published_at r \<noteq> None) = (p_status r = ''published'' \<or> p_status r = ''partial'')
         \<and> (p_status r = ''failed'' \<longrightarrow> p_published_at r = None)
         \<and> (p_status r = ''published'' \<or> p_status r = ''partial'' \<longrightarrow>
              p_published_at r =
                Some (clock w (step (snd (publishPost w (markProcessing st (p_id (fst row)))
                                            (fst row) (snd row))))))"
  proof cases
    case 1
    with f entry st1 show ?thesis by simp
  next
    case 2
    with f entry st1 show ?thesis by simp
  next
    case 3
    with f entry st1 show ?thesis by simp
  qed
qed

text \<open>
  On the path where the dispatch throws, the update of the \<^verbatim>\<open>catch\<close> block sets the status
  and leaves \<^verbatim>\<open>published_at\<close> as the row had it.
\<close>

lemma markFailed_keeps_published_at:
  "map p_published_at (posts (markFailed w st ident)) = map p_published_at (posts st)"
  by (simp add: posts_markFailed)

text \<open>
  Claim C9. After a post's dispatch completes in the scheduling loop, \<^verbatim>\<open>published_at\<close> is
  set if and only if the final status is \<^verbatim>\<open>published\<close> or \<^verbatim>\<open>partial\<close>; when the final status
  is \<^verbatim>\<open>failed\<close>, \<^verbatim>\<open>published_at\<close> is left unset.

  The loop does not keep this on its exception path. The post of \<open>exRepublishStore\<close> carries a
  \<^verbatim>\<open>published_at\<close> from an earlier run and is scheduled again; its list of platforms cannot be
  iterated, so its dispatch throws. The tick reports it \<^verbatim>\<open>failed\<close>, stores \<^verbatim>\<open>failed\<close>, and
  \<^verbatim>\<open>published_at\<close> is still set. The same post with a platform that merely fails goes through
  the final update, which clears \<^verbatim>\<open>published_at\<close>.
\<close>

theorem tick_keeps_published_at_of_failed_post:
  "map (\<lambda>r. (p_status r, p_published_at r)) (posts exRepublishStore) = [(''scheduled'', Some 2)]
   \<and> r_results (fst (processScheduledPosts exWorld exRepublishStore))
       = Some [\<lparr>e_postId = 8, e_status = ''failed'', e_platforms = None,
                 e_error = Some ''platforms is not iterable''\<rparr>]
   \<and> map (\<lambda>r. (p_status r, p_published_at r))
         (posts (snd (processScheduledPosts exWorld exRepublishStore)))
       = [(''failed'', Some 2)]
   \<and> map (\<lambda>r. (p_status r, p_published_at r)) (posts exStaleStore) = [(''scheduled'', Some 2)]
   \<and> map (\<lambda>r. (p_status r, p_published_at r))
         (posts (snd (processScheduledPosts exWorld exStaleStore)))
       = [(''failed'', None)]"
  by code_simp

subsection \<open>The "publish now" route\<close>

text \<open>
  Whatever the platforms returned, a "publish now" request that reaches the update marks the
  post \<^verbatim>\<open>published\<close>.
\<close>

lemma markPublished_rows:
  assumes "r \<in> set (posts (markPublished w st ident))" and "p_id r = ident"
  shows "p_status r = ''published'' \<and> p_published_at r = Some (clock w (step st))"
proof -
  from assms(1) obtain x where x: "x \<in> set (posts st)"
    "r = (if p_id x = ident
               then x\<lparr>p_status := ''published'', p_published_at := Some (clock w (step st)),
                      p_updated_at := Some (clock w (step st))\<rparr>
               else x)"
    unfolding markPublished_def by auto
  show ?thesis
  proof (cases "p_id x = ident")
    case True
    with x(2) show ?thesis by simp
  next
    case False
    with x(2) assms(2) show ?thesis by simp
  qed
qed

lemma publishNow_marks_published:
  assumes "publishNow w st ident userId = (Published rs, st')"
  shows "\<forall>r\<in>set (posts st'). p_id r = ident \<longrightarrow> p_status r = ''published''"
proof -
  from assms obtain post where post: "find (\<lambda>p. p_id p = ident \<and> p_user_id p = userId) (posts st) = Some post"
    by (cases "find (\<lambda>p. p_id p = ident \<and> p_user_id p = userId) (posts st)")
       (simp_all add: publishNow_def)
  obtain res st1 where run: "publishPost w st post userId = (res, st1)"
    by (cases "publishPost w st post userId")
  from assms post run have "st' = markPublished w st1 ident"
    by (cases res) (simp_all add: publishNow_def split: if_splits)
  then show ?thesis using markPublished_rows by blast
qed

text \<open>
  Claim C2. A post published through the immediate "publish now" entry point gets its final
  status from the same fan-out and aggregation rule as timed dispatch: \<^verbatim>\<open>published\<close> only when
  all platform outcomes succeeded, \<^verbatim>\<open>partial\<close> when some did, \<^verbatim>\<open>failed\<close> when none did.

  The route does not do so. For the draft of \<open>exDraftStore\<close> the only platform fails, the
  aggregation rule of the scheduling loop gives \<^verbatim>\<open>failed\<close>, and the route stores
  \<^verbatim>\<open>published\<close> with a time stamp.
\<close>

theorem publishNow_marks_failed_dispatch_published:
  "fst (publishNow exWorld exDraftStore 1 7)
     = Published [(''twitter'', failed ''No connected twitter account found'')]
   \<and> finalStatus [(''twitter'', failed ''No connected twitter account found'')] = ''failed''
   \<and> map (\<lambda>r. (p_status r, p_published_at r)) (posts (snd (publishNow exWorld exDraftStore 1 7)))
       = [(''published'', Some 554400001)]"
  by code_simp

end
